theory Spec2Isabelle
  imports Complex_Main "HOL-Library.FSet" "HOL-Library.Log_Nat"
    "HOL-Library.Char_ord" "HOL-Library.List_Lexorder"
begin

section \<open>Exceptions\<close>

text \<open>
  Every \<^verbatim>\<open>raise\<close> of the modelled code is a value of this type. The built-in
  exceptions carry no message; \<open>LevelValidationError\<close> carries the message the
  source passes, so that the unsolvable-level failure is distinguishable from
  the structural ones.
\<close>

datatype error =
    KeyError
  | ValueError
  | TypeError
  | ZeroDivisionError
  | OverflowError
  | LevelValidationError string

definition and_then :: "error + 'a \<Rightarrow> ('a \<Rightarrow> error + 'b) \<Rightarrow> error + 'b" where
  "and_then r f = (case r of Inl e \<Rightarrow> Inl e | Inr v \<Rightarrow> f v)"


section \<open>Python floats\<close>

text \<open>
  A Python \<^verbatim>\<open>float\<close> is an IEEE 754 binary64 number. A finite float is modelled by
  the rational number it denotes, and every floating-point operation is the
  exact operation followed by rounding to the nearest binary64 number, ties
  to the even significand (\<open>fl\<close>). A significand has 53 bits; the exponent of
  the last place is at least \<open>-1074\<close> (below \<open>2 powi (-1022)\<close> the numbers are
  subnormal and equally spaced).

  A result of magnitude \<open>2 ^ 1024\<close> or more after rounding does not fit.
  Python's integer true division and its conversion of an integer to a float
  raise \<^verbatim>\<open>OverflowError\<close> there. A float product or sum yields an infinity
  instead, which raises \<^verbatim>\<open>OverflowError\<close> as soon as \<^verbatim>\<open>int()\<close> is applied to it;
  every float computed by the scoring code ends in \<^verbatim>\<open>int()\<close> and an infinity met on
  the way stays one (no \<^verbatim>\<open>inf - inf\<close> arises, the converted integer operand being
  finite), so the model raises at the operation that overflows.
\<close>

definition round_half_even :: "rat \<Rightarrow> int" where
  "round_half_even x =
     (let f = \<lfloor>x\<rfloor>; d = x - of_int f
      in if d < 1 / 2 then f else if 1 / 2 < d then f + 1 else if even f then f else f + 1)"

definition ilog2 :: "rat \<Rightarrow> int" where
  \<comment> \<open>\<open>\<lfloor>log\<^sub>2 x\<rfloor>\<close> for \<open>0 < x\<close>, from the bit lengths of numerator and denominator\<close>
  "ilog2 x =
     (let (p, q) = quotient_of x; d = bitlen p - bitlen q
      in if 2 powi d \<le> x then d else d - 1)"

definition fl_exponent :: "rat \<Rightarrow> int" where
  "fl_exponent x = max (ilog2 \<bar>x\<bar> - 52) (- 1074)"

definition fl :: "rat \<Rightarrow> rat" where
  "fl x =
     (if x = 0 then 0
      else let s = 2 powi fl_exponent x in of_int (round_half_even (x / s)) * s)"

definition to_double :: "rat \<Rightarrow> error + rat" where
  "to_double x = (let y = fl x in if 2 ^ 1024 \<le> \<bar>y\<bar> then Inl OverflowError else Inr y)"

definition float_of_int :: "int \<Rightarrow> error + rat" where
  \<comment> \<open>the implicit conversion of an \<^verbatim>\<open>int\<close> operand in mixed arithmetic\<close>
  "float_of_int n = to_double (of_int n)"

definition true_div :: "int \<Rightarrow> int \<Rightarrow> error + rat" where
  \<comment> \<open>\<^verbatim>\<open>a / b\<close> on two \<^verbatim>\<open>int\<close>s: the correctly rounded quotient\<close>
  "true_div a b = (if b = 0 then Inl ZeroDivisionError else to_double (of_int a / of_int b))"

definition float_mul :: "rat \<Rightarrow> rat \<Rightarrow> error + rat" where
  "float_mul x y = to_double (x * y)"

definition float_add :: "rat \<Rightarrow> rat \<Rightarrow> error + rat" where
  "float_add x y = to_double (x + y)"

definition int_mul_float :: "int \<Rightarrow> rat \<Rightarrow> error + rat" where
  \<comment> \<open>\<^verbatim>\<open>n * x\<close> with \<^verbatim>\<open>n\<close> an \<^verbatim>\<open>int\<close> and \<^verbatim>\<open>x\<close> a \<^verbatim>\<open>float\<close>\<close>
  "int_mul_float n x = and_then (float_of_int n) (\<lambda>nf. float_mul nf x)"

definition int_add_float :: "int \<Rightarrow> rat \<Rightarrow> error + rat" where
  "int_add_float n x = and_then (float_of_int n) (\<lambda>nf. float_add nf x)"

definition float_min :: "rat \<Rightarrow> rat \<Rightarrow> rat" where
  \<comment> \<open>\<^verbatim>\<open>min(x, y)\<close>: the second argument only where it is strictly smaller\<close>
  "float_min x y = (if y < x then y else x)"

definition int_of_float :: "rat \<Rightarrow> int" where
  \<comment> \<open>\<^verbatim>\<open>int(x)\<close> truncates towards zero\<close>
  "int_of_float x = (if 0 \<le> x then \<lfloor>x\<rfloor> else \<lceil>x\<rceil>)"


section \<open>Domain model\<close>

datatype GameStatus = IN_PROGRESS | COMPLETED | GAME_OVER

definition is_terminal :: "GameStatus \<Rightarrow> bool" where
  "is_terminal st = (st = COMPLETED \<or> st = GAME_OVER)"

text \<open>
  The level factory builds two kinds of items, \<^verbatim>\<open>Relic(name)\<close> with render key
  \<^verbatim>\<open>"relic"\<close> and \<^verbatim>\<open>Villain(name)\<close> with render key \<^verbatim>\<open>"villain"\<close>; an item of a
  room is one of these or absent.
\<close>

datatype Item = Relic string | Villain string

fun item_name :: "Item \<Rightarrow> string" where
  "item_name (Relic n) = n"
| "item_name (Villain n) = n"

fun render_key :: "Item \<Rightarrow> string" where
  "render_key (Relic n) = ''relic''"
| "render_key (Villain n) = ''villain''"

fun is_Villain :: "Item option \<Rightarrow> bool" where
  \<comment> \<open>\<^verbatim>\<open>isinstance(room.item, Villain)\<close>\<close>
  "is_Villain (Some (Villain n)) = True"
| "is_Villain _ = False"

text \<open>
  Dictionaries whose iteration order the code relies on, or whose entries it
  walks, are association lists read with \<open>map_of\<close>; Python sets are finite
  sets.
\<close>

record Room =
  room_name :: string
  exits :: "(string \<times> string) list"
  item :: "Item option"

record MapGraph =
  rooms :: "(string \<times> Room) list"
  coords :: "(string \<times> int \<times> int) list"

record StandardRules =
  required_items :: "string fset"

datatype Difficulty = EASY | MEDIUM | HARD

datatype VisibilityPolicy = EasyVisibility | MediumVisibility | HardVisibility

datatype ScoringPolicy = EasyScoring | MediumScoring | HardScoring

datatype ScoreStrategy = StandardScore | MaxMovesScore

record Level =
  level_ident :: string
  level_name :: string
  difficulty :: Difficulty
  start_room :: string
  level_map :: MapGraph
  rules :: StandardRules
  visibility :: VisibilityPolicy
  scoring :: ScoreStrategy
  optimal_moves :: "int option"

record Player =
  location :: string

text \<open>
  The session state. The type \<open>'t\<close> of its two timestamps is left open: the
  code only stores clock readings in them and hands them to the standard
  library's ISO-8601 formatter and parser.
\<close>

record 't GameState =
  level_id :: string
  player :: Player
  visited_rooms :: "string fset"
  collected_items :: "string fset"
  move_count :: int
  status :: GameStatus
  message :: "string option"
  event_log :: "string list"
  started_at :: 't
  updated_at :: 't
  encountered_villain :: bool


section \<open>Difficulty: policy and strategy resolution\<close>

fun visibility_policy :: "Difficulty \<Rightarrow> VisibilityPolicy" where
  "visibility_policy EASY = EasyVisibility"
| "visibility_policy MEDIUM = MediumVisibility"
| "visibility_policy HARD = HardVisibility"

fun scoring_policy :: "Difficulty \<Rightarrow> ScoringPolicy" where
  "scoring_policy EASY = EasyScoring"
| "scoring_policy MEDIUM = MediumScoring"
| "scoring_policy HARD = HardScoring"

fun scoring_strategy :: "Difficulty \<Rightarrow> ScoreStrategy" where
  "scoring_strategy EASY = StandardScore"
| "scoring_strategy MEDIUM = StandardScore"
| "scoring_strategy HARD = MaxMovesScore"

fun multiplier :: "ScoringPolicy \<Rightarrow> rat" where
  "multiplier EasyScoring = 3 / 4"
| "multiplier MediumScoring = 1"
| "multiplier HardScoring = 5 / 4"


section \<open>Scoring strategies\<close>

definition WIN_BASE :: int where "WIN_BASE = 1000"
definition MAX_PROGRESS_SCORE :: int where "MAX_PROGRESS_SCORE = 500"
definition MAX_EFFICIENCY_SCORE :: int where "MAX_EFFICIENCY_SCORE = 1000"
definition OVERAGE_PENALTY_FACTOR :: rat where "OVERAGE_PENALTY_FACTOR = 1 / 2"

definition progress_score :: "'t GameState \<Rightarrow> Level \<Rightarrow> error + int" where
  \<comment> \<open>the first part of \<^verbatim>\<open>StandardScore.calculate\<close>, up to \<^verbatim>\<open>progress_score\<close>\<close>
  "progress_score state level =
     (let collected = int (fcard (collected_items state));
          total_required = int (fcard (required_items (rules level)))
      in and_then (if total_required \<noteq> 0 then true_div collected total_required else Inr 0)
           (\<lambda>progress.
              and_then (int_mul_float MAX_PROGRESS_SCORE progress)
                (\<lambda>p. Inr (int_of_float p))))"

definition optimal_moves_falsy :: "Level \<Rightarrow> bool" where
  \<comment> \<open>\<^verbatim>\<open>not level.optimal_moves\<close>: true of \<^verbatim>\<open>None\<close> and of \<^verbatim>\<open>0\<close>\<close>
  "optimal_moves_falsy level = (case optimal_moves level of None \<Rightarrow> True | Some om \<Rightarrow> om = 0)"

definition efficiency :: "'t GameState \<Rightarrow> Level \<Rightarrow> error + rat" where
  "efficiency state level =
     (if optimal_moves_falsy level \<or> move_count state \<le> 0 then Inr 1
      else and_then (true_div (the (optimal_moves level)) (move_count state))
             (\<lambda>q. Inr (float_min q 1)))"

definition StandardScore_calculate :: "'t GameState \<Rightarrow> Level \<Rightarrow> error + int" where
  "StandardScore_calculate state level =
     and_then (progress_score state level)
       (\<lambda>progress_score.
          if status state \<noteq> COMPLETED then Inr progress_score
          else
            and_then (efficiency state level)
              (\<lambda>efficiency.
                 and_then (int_mul_float MAX_EFFICIENCY_SCORE efficiency)
                   (\<lambda>e.
                      let efficiency_score = int_of_float e;
                          multiplier = multiplier (scoring_policy (difficulty level))
                      in and_then (int_mul_float efficiency_score multiplier)
                           (\<lambda>scaled.
                              and_then (int_add_float (WIN_BASE + progress_score) scaled)
                                (\<lambda>final. Inr (int_of_float final))))))"

definition MaxMovesScore_calculate :: "'t GameState \<Rightarrow> Level \<Rightarrow> error + int" where
  "MaxMovesScore_calculate state level =
     and_then (StandardScore_calculate state level)
       (\<lambda>base_score.
          if status state \<noteq> COMPLETED then Inr base_score
          else if optimal_moves_falsy level then Inr base_score
          else if move_count state \<le> the (optimal_moves level) then Inr base_score
          else
            let overage = move_count state - the (optimal_moves level)
            in and_then (true_div overage (the (optimal_moves level)))
                 (\<lambda>q.
                    let penalty_ratio = float_min q 1
                    in and_then (int_mul_float base_score penalty_ratio)
                         (\<lambda>x.
                            and_then (float_mul x OVERAGE_PENALTY_FACTOR)
                              (\<lambda>y.
                                 let penalty = int_of_float y
                                 in Inr (max (base_score - penalty) 0)))))"

fun calculate :: "ScoreStrategy \<Rightarrow> 't GameState \<Rightarrow> Level \<Rightarrow> error + int" where
  "calculate StandardScore state level = StandardScore_calculate state level"
| "calculate MaxMovesScore state level = MaxMovesScore_calculate state level"


section \<open>Session state: mutation helpers, item hooks, rules\<close>

text \<open>
  The code mutates one \<^verbatim>\<open>GameState\<close> object in place; the model passes the state
  and returns the updated one.
\<close>

definition visit :: "string \<Rightarrow> 't GameState \<Rightarrow> 't GameState" where
  "visit name state = state\<lparr>visited_rooms := finsert name (visited_rooms state)\<rparr>"

definition GameState_start :: "'t \<Rightarrow> 't \<Rightarrow> string \<Rightarrow> string \<Rightarrow> 't GameState" where
  \<comment> \<open>\<^verbatim>\<open>GameState.start\<close>; the two clock readings are those of the field defaults\<close>
  "GameState_start t_started t_updated lid start =
     visit start
       \<lparr>level_id = lid, player = \<lparr>location = start\<rparr>, visited_rooms = {||},
        collected_items = {||}, move_count = 0, status = IN_PROGRESS, message = None,
        event_log = [], started_at = t_started, updated_at = t_updated,
        encountered_villain = False\<rparr>"

fun on_enter :: "Item \<Rightarrow> 't GameState \<Rightarrow> 't GameState" where
  "on_enter (Relic n) state =
     (if n |\<in>| collected_items state then state
      else state\<lparr>collected_items := finsert n (collected_items state),
                 event_log := event_log state @ [''Collected '' @ n],
                 message := Some (''Collected '' @ n)\<rparr>)"
| "on_enter (Villain n) state =
     (if encountered_villain state then state
      else state\<lparr>encountered_villain := True,
                 event_log := event_log state @ [''Encountered the villain'']\<rparr>)"

definition check :: "StandardRules \<Rightarrow> 't GameState \<Rightarrow> Room \<Rightarrow> 't GameState" where
  \<comment> \<open>\<^verbatim>\<open>StandardRules.check\<close>; \<^verbatim>\<open>>=\<close> on sets is the superset test\<close>
  "check r state room =
     (if is_Villain (item room) then
        (if required_items r |\<subseteq>| collected_items state
         then state\<lparr>status := COMPLETED, message := Some ''You defeated the villain!''\<rparr>
         else state\<lparr>status := GAME_OVER, message := Some ''You found the villain too soon.''\<rparr>)
      else state)"


section \<open>Game controller\<close>

text \<open>
  The level repository is a finite table from level ids to levels. The save
  and history repositories are external collaborators that receive the state
  and the result record and do not change the state; their calls are left
  out. A clock reading \<open>now\<close> is an argument of every operation that asks for
  the time.

  An operation of the controller returns the state object as the call left
  it, together with the exception that ended the call, if any: a mutation
  made before a \<^verbatim>\<open>raise\<close> stays in the object.
\<close>

definition require_level :: "(string \<rightharpoonup> Level) \<Rightarrow> string \<Rightarrow> error + Level" where
  "require_level levels lid = (case levels lid of None \<Rightarrow> Inl ValueError | Some level \<Rightarrow> Inr level)"

definition autosave :: "'t \<Rightarrow> 't GameState \<Rightarrow> 't GameState" where
  "autosave now state = state\<lparr>updated_at := now\<rparr>"

definition persist_or_finalize ::
  "(string \<rightharpoonup> Level) \<Rightarrow> 't \<Rightarrow> string \<Rightarrow> 't GameState \<Rightarrow> 't GameState \<times> error option" where
  "persist_or_finalize levels now lid state =
     (if \<not> is_terminal (status state) then (autosave now state, None)
      else
        let state = state\<lparr>updated_at := now\<rparr>
        in case require_level levels lid of
             Inl e \<Rightarrow> (state, Some e)
           | Inr level \<Rightarrow>
               (case calculate (scoring level) state level of
                  Inl e \<Rightarrow> (state, Some e)
                | Inr score \<Rightarrow> (state, None)))"

definition start_new_run ::
  "(string \<rightharpoonup> Level) \<Rightarrow> 't \<Rightarrow> 't \<Rightarrow> 't \<Rightarrow> string \<Rightarrow> error + 't GameState" where
  "start_new_run levels t_started t_updated now lid =
     and_then (require_level levels lid)
       (\<lambda>level.
          let state = GameState_start t_started t_updated lid (start_room level);
              state = state\<lparr>message := Some (''Started '' @ level_name level),
                            event_log := event_log state @ [''Started level '' @ level_name level]\<rparr>
          in Inr (autosave now state))"

definition move ::
  "(string \<rightharpoonup> Level) \<Rightarrow> 't \<Rightarrow> string \<Rightarrow> 't GameState \<Rightarrow> string \<Rightarrow> 't GameState \<times> error option" where
  "move levels now lid state direction =
     (if is_terminal (status state) then (state\<lparr>message := Some ''Game already ended.''\<rparr>, None)
      else
        case require_level levels lid of
          Inl e \<Rightarrow> (state, Some e)
        | Inr level \<Rightarrow>
            (case map_of (rooms (level_map level)) (location (player state)) of
               None \<Rightarrow> (state, Some KeyError)
             | Some room \<Rightarrow>
                 (case map_of (exits room) direction of
                    None \<Rightarrow>
                      (autosave now
                         (state\<lparr>move_count := move_count state + 1,
                                message := Some ''You bumped into a wall.'',
                                event_log := event_log state @ [''Bumped into a wall'']\<rparr>),
                       None)
                  | Some next_room \<Rightarrow>
                      let state = state\<lparr>player := (player state)\<lparr>location := next_room\<rparr>,
                                        move_count := move_count state + 1\<rparr>;
                          state = visit next_room state;
                          state = state\<lparr>event_log :=
                                          event_log state @ [''Moved '' @ direction @ '' to '' @ next_room],
                                        message := None\<rparr>
                      in case map_of (rooms (level_map level)) next_room of
                           None \<Rightarrow> (state, Some KeyError)
                         | Some entered_room \<Rightarrow>
                             let state = (case item entered_room of
                                            None \<Rightarrow> state
                                          | Some it \<Rightarrow> on_enter it state);
                                 state = check (rules level) state entered_room
                             in persist_or_finalize levels now lid state)))"

text \<open>
  The session states a player can be in: the state a new run starts with, and
  every state a call of \<open>move\<close> leaves behind.
\<close>

inductive reachable :: "(string \<rightharpoonup> Level) \<Rightarrow> 't GameState \<Rightarrow> bool"
  for levels :: "string \<rightharpoonup> Level" where
  start: "start_new_run levels t_started t_updated now lid = Inr state \<Longrightarrow> reachable levels state"
| step: "reachable levels state \<Longrightarrow> reachable levels (fst (move levels now lid state direction))"


section \<open>Serialization of the session state\<close>

text \<open>
  The serialized form is a JSON-compatible value; a dictionary literal is the
  list of its entries in the order written.
\<close>

datatype json =
    JNone
  | JBool bool
  | JInt int
  | JStr string
  | JList "json list"
  | JDict "(string \<times> json) list"

fun status_value :: "GameStatus \<Rightarrow> string" where
  "status_value IN_PROGRESS = ''in_progress''"
| "status_value COMPLETED = ''completed''"
| "status_value GAME_OVER = ''game_over''"

definition GameStatus_of_value :: "json \<Rightarrow> error + GameStatus" where
  \<comment> \<open>the enum's constructor call \<^verbatim>\<open>GameStatus(value)\<close>\<close>
  "GameStatus_of_value v =
     (if v = JStr ''in_progress'' then Inr IN_PROGRESS
      else if v = JStr ''completed'' then Inr COMPLETED
      else if v = JStr ''game_over'' then Inr GAME_OVER
      else Inl ValueError)"

text \<open>
  \<^verbatim>\<open>list(s)\<close> of a set enumerates its elements once each, in an order the
  language leaves open; the model takes the sorted one. Nothing below depends
  on the order.
\<close>

definition list_of_set :: "string fset \<Rightarrow> string list" where
  "list_of_set s = sorted_list_of_fset s"

definition gamestate_to_dict :: "('t \<Rightarrow> string) \<Rightarrow> 't GameState \<Rightarrow> json" where
  "gamestate_to_dict isoformat state =
     JDict
       [(''level_id'', JStr (level_id state)),
        (''player'', JDict [(''location'', JStr (location (player state)))]),
        (''visited_rooms'', JList (map JStr (list_of_set (visited_rooms state)))),
        (''collected_items'', JList (map JStr (list_of_set (collected_items state)))),
        (''move_count'', JInt (move_count state)),
        (''status'', JStr (status_value (status state))),
        (''message'', (case message state of None \<Rightarrow> JNone | Some m \<Rightarrow> JStr m)),
        (''event_log'', JList (map JStr (event_log state))),
        (''encountered_villain'', JBool (encountered_villain state)),
        (''started_at'', JStr (isoformat (started_at state))),
        (''updated_at'', JStr (isoformat (updated_at state)))]"

text \<open>
  Reading the dictionary back. \<^verbatim>\<open>d[k]\<close> raises \<^verbatim>\<open>KeyError\<close> on a missing key and
  \<^verbatim>\<open>TypeError\<close> when \<^verbatim>\<open>d\<close> is not a dictionary; \<^verbatim>\<open>d.get(k, default)\<close> does not
  raise. The fields of the state are typed here, so a value of another JSON
  type than the field's is reported as \<^verbatim>\<open>TypeError\<close> (Python would store it
  unchecked).
\<close>

fun subscript :: "json \<Rightarrow> string \<Rightarrow> error + json" where
  "subscript (JDict kvs) k = (case map_of kvs k of None \<Rightarrow> Inl KeyError | Some v \<Rightarrow> Inr v)"
| "subscript _ k = Inl TypeError"

fun get_default :: "json \<Rightarrow> string \<Rightarrow> json \<Rightarrow> json" where
  "get_default (JDict kvs) k d = (case map_of kvs k of None \<Rightarrow> d | Some v \<Rightarrow> v)"
| "get_default _ k d = d"

fun as_str :: "json \<Rightarrow> error + string" where
  "as_str (JStr s) = Inr s"
| "as_str _ = Inl TypeError"

fun as_int :: "json \<Rightarrow> error + int" where
  "as_int (JInt n) = Inr n"
| "as_int _ = Inl TypeError"

fun as_bool :: "json \<Rightarrow> error + bool" where
  "as_bool (JBool b) = Inr b"
| "as_bool _ = Inl TypeError"

fun as_optional_str :: "json \<Rightarrow> error + string option" where
  "as_optional_str JNone = Inr None"
| "as_optional_str (JStr s) = Inr (Some s)"
| "as_optional_str _ = Inl TypeError"

fun strs :: "json list \<Rightarrow> error + string list" where
  "strs [] = Inr []"
| "strs (v # vs) = and_then (as_str v) (\<lambda>s. and_then (strs vs) (\<lambda>ss. Inr (s # ss)))"

fun as_str_list :: "json \<Rightarrow> error + string list" where
  "as_str_list (JList vs) = strs vs"
| "as_str_list _ = Inl TypeError"

definition gamestate_from_dict :: "(string \<Rightarrow> error + 't) \<Rightarrow> json \<Rightarrow> error + 't GameState" where
  "gamestate_from_dict fromisoformat data =
     and_then (subscript data ''player'') (\<lambda>player_data.
     and_then (and_then (subscript player_data ''location'') as_str) (\<lambda>loc.
     and_then (and_then (subscript data ''level_id'') as_str) (\<lambda>lid.
     and_then (as_str_list (get_default data ''visited_rooms'' (JList []))) (\<lambda>visited.
     and_then (as_str_list (get_default data ''collected_items'' (JList []))) (\<lambda>collected.
     and_then (as_int (get_default data ''move_count'' (JInt 0))) (\<lambda>moves.
     and_then (GameStatus_of_value (get_default data ''status'' (JStr (status_value IN_PROGRESS)))) (\<lambda>st.
     and_then (as_optional_str (get_default data ''message'' JNone)) (\<lambda>msg.
     and_then (as_str_list (get_default data ''event_log'' (JList []))) (\<lambda>log.
     and_then (as_bool (get_default data ''encountered_villain'' (JBool False))) (\<lambda>villain.
     and_then (and_then (and_then (subscript data ''started_at'') as_str) fromisoformat) (\<lambda>started.
     and_then (and_then (and_then (subscript data ''updated_at'') as_str) fromisoformat) (\<lambda>updated.
       let state =
             \<lparr>level_id = lid, player = \<lparr>location = loc\<rparr>,
              visited_rooms = fset_of_list visited, collected_items = fset_of_list collected,
              move_count = moves, status = st, message = msg, event_log = log,
              started_at = started, updated_at = updated, encountered_villain = villain\<rparr>
       in Inr (state\<lparr>visited_rooms := finsert (location (player state)) (visited_rooms state)\<rparr>)
     ))))))))))))"


section \<open>Scoring: inputs and the numbers computed\<close>

text \<open>
  The inputs the scoring properties below are stated for: fewer than \<open>2\<^sup>3\<^sup>2\<close>
  collected items, a move count below \<open>2\<^sup>6\<^sup>3\<close> and, where the level has an
  optimal move count, one that is not negative and below \<open>2\<^sup>6\<^sup>3\<close>. On these no
  float operation of the scoring code overflows.
\<close>

definition well_formed_inputs :: "'t GameState \<Rightarrow> Level \<Rightarrow> bool" where
  "well_formed_inputs state level =
     (fcard (collected_items state) < 2 ^ 32 \<and> move_count state < 2 ^ 63 \<and>
      (case optimal_moves level of None \<Rightarrow> True | Some om \<Rightarrow> 0 \<le> om \<and> om < 2 ^ 63))"

text \<open>
  A level as the factory would have built it for another difficulty, and the
  score the controller computes at finalization, with the level's own
  strategy.
\<close>

definition with_difficulty :: "Level \<Rightarrow> Difficulty \<Rightarrow> Level" where
  "with_difficulty level d =
     level\<lparr>difficulty := d, visibility := visibility_policy d, scoring := scoring_strategy d\<rparr>"

definition score :: "'t GameState \<Rightarrow> Level \<Rightarrow> error + int" where
  "score state level = calculate (scoring level) state level"

text \<open>
  The numbers the strategies compute when nothing overflows; the lemmas below
  show that \<open>calculate\<close> returns them on well-formed inputs.
\<close>

definition progress_points :: "nat \<Rightarrow> nat \<Rightarrow> int" where
  "progress_points c t = (if t = 0 then 0 else \<lfloor>fl (500 * fl (of_nat c / of_nat t))\<rfloor>)"

definition efficiency_value :: "int option \<Rightarrow> int \<Rightarrow> rat" where
  "efficiency_value om mc =
     (case om of None \<Rightarrow> 1
      | Some n \<Rightarrow> if n = 0 \<or> mc \<le> 0 then 1 else min (fl (of_int n / of_int mc)) 1)"

definition efficiency_points :: "int option \<Rightarrow> int \<Rightarrow> int" where
  "efficiency_points om mc = \<lfloor>fl (1000 * efficiency_value om mc)\<rfloor>"

definition standard_points :: "'t GameState \<Rightarrow> Level \<Rightarrow> int" where
  "standard_points state level =
     (let pp = progress_points (fcard (collected_items state)) (fcard (required_items (rules level)))
      in if status state \<noteq> COMPLETED then pp
         else \<lfloor>of_int (1000 + pp)
                + of_int (efficiency_points (optimal_moves level) (move_count state))
                  * multiplier (scoring_policy (difficulty level))\<rfloor>)"

definition penalty_points :: "int \<Rightarrow> int \<Rightarrow> int \<Rightarrow> int" where
  "penalty_points base mc n =
     \<lfloor>fl (fl (of_int base * min (fl (of_int (mc - n) / of_int n)) 1) * (1 / 2))\<rfloor>"


section \<open>A small level\<close>

text \<open>
  Four rooms: the start room \<open>A\<close> leads east to \<open>B\<close>, which holds the required
  relic \<open>Gem\<close>, west to \<open>D\<close>, which holds the relic \<open>Coin\<close> that the rules do
  not ask for, and south to \<open>C\<close>, where the villain waits. The concrete
  instances below run on it; their timestamps are ISO-8601 texts.
\<close>

definition demo_room_A :: Room where
  "demo_room_A =
     \<lparr>room_name = ''A'', exits = [(''east'', ''B''), (''south'', ''C''), (''west'', ''D'')],
      item = None\<rparr>"

definition demo_room_B :: Room where
  "demo_room_B = \<lparr>room_name = ''B'', exits = [(''west'', ''A'')], item = Some (Relic ''Gem'')\<rparr>"

definition demo_room_C :: Room where
  "demo_room_C = \<lparr>room_name = ''C'', exits = [(''north'', ''A'')], item = Some (Villain ''Boss'')\<rparr>"

definition demo_room_D :: Room where
  "demo_room_D = \<lparr>room_name = ''D'', exits = [(''east'', ''A'')], item = Some (Relic ''Coin'')\<rparr>"

definition demo_map :: MapGraph where
  "demo_map =
     \<lparr>rooms = [(''A'', demo_room_A), (''B'', demo_room_B), (''C'', demo_room_C), (''D'', demo_room_D)],
      coords = [(''A'', (1, 0)), (''B'', (2, 0)), (''C'', (1, 1)), (''D'', (0, 0))]\<rparr>"

definition demo_level :: "Difficulty \<Rightarrow> Level" where
  "demo_level d =
     \<lparr>level_ident = ''demo'', level_name = ''Demo'', difficulty = d, start_room = ''A'',
      level_map = demo_map, rules = \<lparr>required_items = {|''Gem''|}\<rparr>,
      visibility = visibility_policy d, scoring = scoring_strategy d, optimal_moves = Some 3\<rparr>"

definition demo_levels :: "string \<rightharpoonup> Level" where
  "demo_levels = [''demo'' \<mapsto> demo_level MEDIUM]"

definition demo_state :: "string \<Rightarrow> string fset \<Rightarrow> int \<Rightarrow> GameStatus \<Rightarrow> string GameState" where
  "demo_state loc collected moves st =
     \<lparr>level_id = ''demo'', player = \<lparr>location = loc\<rparr>, visited_rooms = {|''A'', loc|},
      collected_items = collected, move_count = moves, status = st, message = None,
      event_log = [], started_at = ''2026-01-01T00:00:00+00:00'',
      updated_at = ''2026-01-01T00:00:00+00:00'', encountered_villain = False\<rparr>"

definition demo_start :: "string GameState" where
  "demo_start =
     \<lparr>level_id = ''demo'', player = \<lparr>location = ''A''\<rparr>, visited_rooms = {|''A''|},
      collected_items = {||}, move_count = 0, status = IN_PROGRESS,
      message = Some ''Started Demo'', event_log = [''Started level Demo''],
      started_at = ''2026-01-01T00:00:00+00:00'', updated_at = ''2026-01-01T00:00:02+00:00'',
      encountered_villain = False\<rparr>"


definition demo_lost :: "string GameState" where
  \<comment> \<open>west to the coin, back east, then south to the villain\<close>
  "demo_lost =
     fst (move demo_levels ''2026-01-01T00:00:05+00:00'' ''demo''
       (fst (move demo_levels ''2026-01-01T00:00:04+00:00'' ''demo''
         (fst (move demo_levels ''2026-01-01T00:00:03+00:00'' ''demo'' demo_start ''west''))
         ''east''))
       ''south'')"

definition demo_both :: "string GameState" where
  \<comment> \<open>west to the coin, back east, then east to the gem\<close>
  "demo_both =
     fst (move demo_levels ''2026-01-01T00:00:05+00:00'' ''demo''
       (fst (move demo_levels ''2026-01-01T00:00:04+00:00'' ''demo''
         (fst (move demo_levels ''2026-01-01T00:00:03+00:00'' ''demo'' demo_start ''west''))
         ''east''))
       ''east'')"

text \<open>
  A corridor of eight rooms: from the gate through six rooms, each holding one
  of the six required stones, to the villain's lair; the shortest winning walk
  has seven moves.
\<close>

definition stones :: "string fset" where
  "stones = {|''Blue Stone'', ''Yellow Stone'', ''Red Stone'', ''Purple Stone'', ''Green Stone'', ''Orange Stone''|}"

definition five_stones :: "string fset" where
  "five_stones = {|''Blue Stone'', ''Yellow Stone'', ''Red Stone'', ''Purple Stone'', ''Green Stone''|}"

definition corridor_map :: MapGraph where
  "corridor_map =
     \<lparr>rooms =
        [(''Gate'', \<lparr>room_name = ''Gate'', exits = [(''east'', ''Blue Room'')], item = None\<rparr>),
         (''Blue Room'', \<lparr>room_name = ''Blue Room'',
            exits = [(''west'', ''Gate''), (''east'', ''Yellow Room'')], item = Some (Relic ''Blue Stone'')\<rparr>),
         (''Yellow Room'', \<lparr>room_name = ''Yellow Room'',
            exits = [(''west'', ''Blue Room''), (''east'', ''Red Room'')], item = Some (Relic ''Yellow Stone'')\<rparr>),
         (''Red Room'', \<lparr>room_name = ''Red Room'',
            exits = [(''west'', ''Yellow Room''), (''east'', ''Purple Room'')], item = Some (Relic ''Red Stone'')\<rparr>),
         (''Purple Room'', \<lparr>room_name = ''Purple Room'',
            exits = [(''west'', ''Red Room''), (''east'', ''Green Room'')], item = Some (Relic ''Purple Stone'')\<rparr>),
         (''Green Room'', \<lparr>room_name = ''Green Room'',
            exits = [(''west'', ''Purple Room''), (''east'', ''Orange Room'')], item = Some (Relic ''Green Stone'')\<rparr>),
         (''Orange Room'', \<lparr>room_name = ''Orange Room'',
            exits = [(''west'', ''Green Room''), (''east'', ''Lair'')], item = Some (Relic ''Orange Stone'')\<rparr>),
         (''Lair'', \<lparr>room_name = ''Lair'', exits = [(''west'', ''Orange Room'')], item = Some (Villain ''Villain'')\<rparr>)],
      coords =
        [(''Gate'', (0, 0)), (''Blue Room'', (1, 0)), (''Yellow Room'', (2, 0)), (''Red Room'', (3, 0)),
         (''Purple Room'', (4, 0)), (''Green Room'', (5, 0)), (''Orange Room'', (6, 0)), (''Lair'', (7, 0))]\<rparr>"

definition corridor_level :: "Difficulty \<Rightarrow> Level" where
  "corridor_level d =
     \<lparr>level_ident = ''corridor'', level_name = ''Corridor'', difficulty = d,
      start_room = ''Gate'', level_map = corridor_map,
      rules = \<lparr>required_items = stones\<rparr>,
      visibility = visibility_policy d, scoring = scoring_strategy d, optimal_moves = Some 7\<rparr>"

definition corridor_state :: "string fset \<Rightarrow> int \<Rightarrow> GameStatus \<Rightarrow> string GameState" where
  \<comment> \<open>a run that has ended in the lair\<close>
  "corridor_state collected moves st =
     \<lparr>level_id = ''corridor'', player = \<lparr>location = ''Lair''\<rparr>,
      visited_rooms = {|''Gate'', ''Lair''|},
      collected_items = collected, move_count = moves, status = st, message = None,
      event_log = [], started_at = ''2026-01-01T00:00:00+00:00'',
      updated_at = ''2026-01-01T00:00:00+00:00'', encountered_villain = True\<rparr>"

text \<open>
  A level whose start room is the villain's room and whose rules require no
  item: its optimal move count is 0. The run \<open>zero_won\<close> leaves the lair and
  returns.
\<close>

definition zero_map :: MapGraph where
  "zero_map =
     \<lparr>rooms = [(''Lair'', \<lparr>room_name = ''Lair'', exits = [(''north'', ''Hall'')], item = Some (Villain ''Boss'')\<rparr>),
               (''Hall'', \<lparr>room_name = ''Hall'', exits = [(''south'', ''Lair'')], item = None\<rparr>)],
      coords = [(''Lair'', (0, 1)), (''Hall'', (0, 0))]\<rparr>"

definition zero_level :: "Difficulty \<Rightarrow> Level" where
  "zero_level d =
     \<lparr>level_ident = ''zero'', level_name = ''Zero'', difficulty = d, start_room = ''Lair'',
      level_map = zero_map, rules = \<lparr>required_items = {||}\<rparr>,
      visibility = visibility_policy d, scoring = scoring_strategy d, optimal_moves = Some 0\<rparr>"

definition zero_start :: "string GameState" where
  "zero_start =
     \<lparr>level_id = ''zero'', player = \<lparr>location = ''Lair''\<rparr>, visited_rooms = {|''Lair''|},
      collected_items = {||}, move_count = 0, status = IN_PROGRESS,
      message = Some ''Started Zero'', event_log = [''Started level Zero''],
      started_at = ''2026-01-01T00:00:00+00:00'', updated_at = ''2026-01-01T00:00:02+00:00'',
      encountered_villain = False\<rparr>"

definition zero_won :: "Difficulty \<Rightarrow> string GameState" where
  "zero_won d =
     fst (move [''zero'' \<mapsto> zero_level d] ''2026-01-01T00:00:04+00:00'' ''zero''
           (fst (move [''zero'' \<mapsto> zero_level d] ''2026-01-01T00:00:03+00:00'' ''zero'' zero_start ''north''))
           ''south'')"


section \<open>Rounding: basic facts\<close>

text \<open>
  Rounding to even is monotone and odd, and leaves every number with a
  53-bit significand as it is.
\<close>

lemma round_half_even_of_int: "round_half_even (of_int n) = n"
  by (simp add: round_half_even_def)

lemma round_half_even_mono: "x \<le> y \<Longrightarrow> round_half_even x \<le> round_half_even y"
proof -
  assume xy: "x \<le> y"
  have fm: "\<lfloor>x\<rfloor> \<le> \<lfloor>y\<rfloor>" using xy by (rule floor_mono)
  show ?thesis
  proof (cases "\<lfloor>x\<rfloor> = \<lfloor>y\<rfloor>")
    case True
    then show ?thesis using xy by (auto simp: round_half_even_def Let_def)
  next
    case False
    then have "\<lfloor>x\<rfloor> + 1 \<le> \<lfloor>y\<rfloor>" using fm by simp
    moreover have "round_half_even x \<le> \<lfloor>x\<rfloor> + 1" by (simp add: round_half_even_def Let_def)
    moreover have "\<lfloor>y\<rfloor> \<le> round_half_even y" by (simp add: round_half_even_def Let_def)
    ultimately show ?thesis by linarith
  qed
qed

lemma round_half_even_minus: "round_half_even (- x) = - round_half_even x"
proof (cases "x \<in> \<int>")
  case True
  then obtain n where "x = of_int n" by (auto elim: Ints_cases)
  then show ?thesis by (simp add: round_half_even_of_int flip: of_int_minus)
next
  case False
  then have ne: "x \<noteq> of_int \<lfloor>x\<rfloor>" by (metis Ints_of_int)
  have fl: "\<lfloor>- x\<rfloor> = - \<lfloor>x\<rfloor> - 1" using ne by (simp add: floor_minus ceiling_altdef)
  have lo: "of_int \<lfloor>x\<rfloor> < x" using ne of_int_floor_le [of x] by linarith
  show ?thesis unfolding round_half_even_def Let_def fl using lo
    by (auto simp: algebra_simps)
qed

lemma two_powi_pos: "0 < (2::rat) powi e"
  by (simp add: zero_less_power_int)

lemma two_powi_mono: "a \<le> b \<Longrightarrow> (2::rat) powi a \<le> 2 powi b"
  by (rule power_int_increasing) simp_all

lemma two_powi_strict_mono: "a < b \<Longrightarrow> (2::rat) powi a < 2 powi b"
  by (rule power_int_strict_increasing) simp_all

lemma two_powi_less_cancel: "(2::rat) powi a < 2 powi b \<Longrightarrow> a < b"
  using two_powi_mono [of b a] by (cases "a < b") auto

lemma bitlen_bounds_rat:
  assumes "0 < p"
  shows "2 powi (bitlen p - 1) \<le> (of_int p :: rat)" "(of_int p :: rat) < 2 powi bitlen p"
proof -
  have b: "2 ^ nat (bitlen p - 1) \<le> p" "p < 2 ^ nat (bitlen p)"
    using bitlen_bounds [OF assms] by simp_all
  have pos: "0 < bitlen p"
  proof (rule ccontr)
    assume "\<not> 0 < bitlen p"
    then have "nat (bitlen p) = 0" by simp
    with b(2) assms show False by simp
  qed
  have "(of_int (2 ^ nat (bitlen p - 1)) :: rat) \<le> of_int p"
    using b(1) by (simp only: of_int_le_iff)
  then show "2 powi (bitlen p - 1) \<le> (of_int p :: rat)"
    using pos by (simp add: power_int_def)
  have "(of_int p :: rat) < of_int (2 ^ nat (bitlen p))"
    using b(2) by (simp only: of_int_less_iff)
  then show "(of_int p :: rat) < 2 powi bitlen p"
    using pos by (simp add: power_int_def)
qed

lemma ilog2_bounds:
  assumes "0 < x"
  shows "2 powi ilog2 x \<le> x \<and> x < 2 powi (ilog2 x + 1)"
proof -
  obtain p q where pq: "quotient_of x = (p, q)" by (cases "quotient_of x")
  have q: "0 < q" using pq by (rule quotient_of_denom_pos)
  have x: "x = of_int p / of_int q" using pq by (rule quotient_of_div)
  have p: "0 < p" using assms q unfolding x by (simp add: zero_less_divide_iff)
  define d where "d = bitlen p - bitlen q"
  note bp = bitlen_bounds_rat [OF p] and bq = bitlen_bounds_rat [OF q]
  have "x < 2 powi bitlen p / 2 powi (bitlen q - 1)"
    unfolding x using bp(2) bq(1) p q
    by (intro frac_less) (simp_all add: two_powi_pos)
  also have "\<dots> = 2 powi (d + 1)"
    by (simp add: d_def flip: power_int_diff) (simp add: algebra_simps)
  finally have up: "x < 2 powi (d + 1)" .
  have "2 powi (bitlen p - 1) / 2 powi bitlen q < x"
    unfolding x using bp(1) bq(2) p q
    by (intro frac_less2) (simp_all add: two_powi_pos)
  moreover have "2 powi (bitlen p - 1) / 2 powi bitlen q = (2::rat) powi (d - 1)"
    by (simp add: d_def flip: power_int_diff) (simp add: algebra_simps)
  ultimately have lo: "2 powi (d - 1) < x" by simp
  have il: "ilog2 x = (if 2 powi d \<le> x then d else d - 1)"
    by (simp add: ilog2_def pq d_def Let_def)
  show ?thesis
  proof (cases "2 powi d \<le> x")
    case True
    then show ?thesis using up il by simp
  next
    case False
    then show ?thesis using lo il by simp
  qed
qed

lemma ilog2_unique:
  assumes "0 < x" "2 powi e \<le> x" "x < 2 powi (e + 1)"
  shows "ilog2 x = e"
proof -
  from ilog2_bounds [OF assms(1)]
  have b: "2 powi ilog2 x \<le> x" "x < 2 powi (ilog2 x + 1)" by simp_all
  have "2 powi e < (2::rat) powi (ilog2 x + 1)" using assms(2) b(2) by simp
  then have 1: "e < ilog2 x + 1" by (rule two_powi_less_cancel)
  have "2 powi ilog2 x < (2::rat) powi (e + 1)" using assms(3) b(1) by simp
  then have 2: "ilog2 x < e + 1" by (rule two_powi_less_cancel)
  from 1 2 show ?thesis by simp
qed

lemma ilog2_mono:
  assumes "0 < x" "x \<le> y"
  shows "ilog2 x \<le> ilog2 y"
proof -
  have y: "0 < y" using assms by simp
  from ilog2_bounds [OF assms(1)] ilog2_bounds [OF y]
  have "2 powi ilog2 x < (2::rat) powi (ilog2 y + 1)" using assms(2) by simp
  then have "ilog2 x < ilog2 y + 1" by (rule two_powi_less_cancel)
  then show ?thesis by simp
qed

lemma fl_exponent_minus: "fl_exponent (- x) = fl_exponent x"
  by (simp add: fl_exponent_def)

lemma fl_minus: "fl (- x) = - fl x"
  by (simp add: fl_def fl_exponent_minus round_half_even_minus Let_def)

lemma fl_exponent_mono: "0 < x \<Longrightarrow> x \<le> y \<Longrightarrow> fl_exponent x \<le> fl_exponent y"
  using ilog2_mono [of x y] by (simp add: fl_exponent_def)

lemma fl_exponent_upper: "0 < x \<Longrightarrow> x < 2 powi (fl_exponent x + 53)"
proof -
  assume x: "0 < x"
  have "ilog2 x + 1 \<le> fl_exponent x + 53" using x by (simp add: fl_exponent_def)
  then have "(2::rat) powi (ilog2 x + 1) \<le> 2 powi (fl_exponent x + 53)" by (rule two_powi_mono)
  with ilog2_bounds [OF x] show ?thesis by simp
qed

lemma fl_exponent_lower:
  "0 < x \<Longrightarrow> - 1074 < fl_exponent x \<Longrightarrow> 2 powi (fl_exponent x + 52) \<le> x"
proof -
  assume x: "0 < x" and e: "- 1074 < fl_exponent x"
  have "fl_exponent x + 52 = ilog2 x" using x e by (simp add: fl_exponent_def split: if_splits)
  with ilog2_bounds [OF x] show ?thesis by simp
qed

lemma fl_pos_eq: "0 < x \<Longrightarrow> fl x = of_int (round_half_even (x / 2 powi fl_exponent x)) * 2 powi fl_exponent x"
  by (simp add: fl_def Let_def)

lemma two_powi_split: "(2::rat) powi (e + k) = 2 powi k * 2 powi e"
  by (simp add: power_int_add)

lemma fl_upper: 
  assumes x: "0 < x"
  shows "fl x \<le> 2 powi (fl_exponent x + 53)"
proof -
  let ?s = "(2::rat) powi fl_exponent x"
  have s: "0 < ?s" by (rule two_powi_pos)
  have "x / ?s \<le> 2 powi 53"
    using fl_exponent_upper [OF x] s by (simp add: two_powi_split pos_divide_le_eq)
  then have "round_half_even (x / ?s) \<le> round_half_even (2 powi 53)"
    by (rule round_half_even_mono)
  also have "round_half_even ((2::rat) powi 53) = 2 ^ 53"
    using round_half_even_of_int [of "2 ^ 53"] by simp
  finally have "(of_int (round_half_even (x / ?s)) :: rat) \<le> of_int (2 ^ 53)"
    by (simp only: of_int_le_iff)
  then have "of_int (round_half_even (x / ?s)) * ?s \<le> 2 powi 53 * ?s"
    using s by (simp add: mult_right_mono)
  then show ?thesis using x by (simp add: fl_pos_eq two_powi_split)
qed

lemma fl_lower: 
  assumes x: "0 < x" and e: "- 1074 < fl_exponent x"
  shows "2 powi (fl_exponent x + 52) \<le> fl x"
proof -
  let ?s = "(2::rat) powi fl_exponent x"
  have s: "0 < ?s" by (rule two_powi_pos)
  have "2 powi 52 \<le> x / ?s"
    using fl_exponent_lower [OF x e] s by (simp add: two_powi_split pos_le_divide_eq)
  then have "round_half_even (2 powi 52) \<le> round_half_even (x / ?s)"
    by (rule round_half_even_mono)
  moreover have "round_half_even ((2::rat) powi 52) = 2 ^ 52"
    using round_half_even_of_int [of "2 ^ 52"] by simp
  ultimately have "(of_int (2 ^ 52) :: rat) \<le> of_int (round_half_even (x / ?s))"
    by (simp only: of_int_le_iff)
  then have "2 powi 52 * ?s \<le> of_int (round_half_even (x / ?s)) * ?s"
    using s by (simp add: mult_right_mono)
  then show ?thesis using x by (simp add: fl_pos_eq two_powi_split)
qed

lemma fl_nonneg: "0 \<le> x \<Longrightarrow> 0 \<le> fl x"
proof (cases "x = 0")
  case True
  then show ?thesis by (simp add: fl_def)
next
  case False
  assume "0 \<le> x"
  with False have x: "0 < x" by simp
  have "0 \<le> x / 2 powi fl_exponent x" using x by (simp add: two_powi_pos less_imp_le)
  then have "round_half_even 0 \<le> round_half_even (x / 2 powi fl_exponent x)"
    by (rule round_half_even_mono)
  then have "0 \<le> round_half_even (x / 2 powi fl_exponent x)"
    using round_half_even_of_int [of 0] by simp
  then show ?thesis using x by (simp add: fl_pos_eq two_powi_pos less_imp_le)
qed

lemma fl_mono_pos:
  assumes x: "0 < x" and xy: "x \<le> y"
  shows "fl x \<le> fl y"
proof -
  have y: "0 < y" using x xy by simp
  have ee: "fl_exponent x \<le> fl_exponent y" using x xy by (rule fl_exponent_mono)
  show ?thesis
  proof (cases "fl_exponent x = fl_exponent y")
    case True
    let ?s = "(2::rat) powi fl_exponent y"
    have s: "0 < ?s" by (rule two_powi_pos)
    have "x / ?s \<le> y / ?s" using xy s by (simp add: divide_right_mono)
    then have "round_half_even (x / ?s) \<le> round_half_even (y / ?s)"
      by (rule round_half_even_mono)
    then have "(of_int (round_half_even (x / ?s)) :: rat) \<le> of_int (round_half_even (y / ?s))"
      by (simp only: of_int_le_iff)
    then have "of_int (round_half_even (x / ?s)) * ?s \<le> of_int (round_half_even (y / ?s)) * ?s"
      using s by (simp add: mult_right_mono)
    then show ?thesis using x y True by (simp add: fl_pos_eq)
  next
    case False
    with ee have lt: "fl_exponent x < fl_exponent y" by simp
    have "- 1074 \<le> fl_exponent x" by (simp add: fl_exponent_def)
    with lt have e: "- 1074 < fl_exponent y" by simp
    have "fl x \<le> 2 powi (fl_exponent x + 53)" using x by (rule fl_upper)
    also have "\<dots> \<le> 2 powi (fl_exponent y + 52)" using lt by (intro two_powi_mono) simp
    also have "\<dots> \<le> fl y" using y e by (rule fl_lower)
    finally show ?thesis .
  qed
qed

lemma fl_mono: 
  assumes "x \<le> y"
  shows "fl x \<le> fl y"
proof -
  consider "0 < x" | "x \<le> 0" "0 \<le> y" | "y < 0" by linarith
  then show ?thesis
  proof cases
    case 1
    then show ?thesis using assms by (rule fl_mono_pos)
  next
    case 2
    have "fl x \<le> 0" using fl_nonneg [of "- x"] 2(1) by (simp add: fl_minus)
    moreover have "0 \<le> fl y" using 2(2) by (rule fl_nonneg)
    ultimately show ?thesis by simp
  next
    case 3
    have "fl (- y) \<le> fl (- x)" using 3 assms by (intro fl_mono_pos) simp_all
    then show ?thesis by (simp add: fl_minus)
  qed
qed

lemma fl_exact_pos:
  assumes m: "0 < m" "m < 2 ^ 53" and e: "- 1074 \<le> e"
  shows "fl (of_int m * 2 powi e) = of_int m * 2 powi e"
proof -
  define x where "x = of_int m * (2::rat) powi e"
  define E where "E = fl_exponent x"
  have x: "0 < x" using m(1) by (simp add: x_def two_powi_pos)
  have Ee: "E \<le> e"
  proof (rule ccontr)
    assume "\<not> E \<le> e"
    then have lt: "e < E" by simp
    with e have "- 1074 < fl_exponent x" by (simp add: E_def)
    from fl_exponent_lower [OF x this] have "2 powi (E + 52) \<le> x" by (simp add: E_def)
    moreover have "(2::rat) powi (e + 53) \<le> 2 powi (E + 52)" using lt by (intro two_powi_mono) simp
    moreover have "(of_int m :: rat) < of_int (2 ^ 53)" using m(2) by (simp only: of_int_less_iff)
    then have "x < 2 powi (e + 53)" by (simp add: x_def two_powi_split two_powi_pos)
    ultimately show False by simp
  qed
  define k where "k = nat (e - E)"
  have ek: "e = E + int k" using Ee by (simp add: k_def)
  have pk: "(2::rat) powi e = 2 ^ k * 2 powi E"
    by (subst ek) (simp add: power_int_add)
  have "x / 2 powi E = of_int (m * 2 ^ k)"
    using two_powi_pos [of E] by (simp add: x_def pk)
  then have "round_half_even (x / 2 powi E) = m * 2 ^ k"
    by (simp only: round_half_even_of_int)
  then have "fl x = of_int (m * 2 ^ k) * 2 powi E" using x by (simp only: fl_pos_eq E_def)
  also have "\<dots> = x" by (simp add: x_def pk)
  finally show ?thesis by (simp only: x_def)
qed

lemma fl_exact:
  assumes m: "\<bar>m\<bar> < 2 ^ 53" and e: "- 1074 \<le> e"
  shows "fl (of_int m * 2 powi e) = of_int m * 2 powi e"
proof -
  consider "0 < m" | "m = 0" | "m < 0" by linarith
  then show ?thesis
  proof cases
    case 1
    then show ?thesis using m e by (intro fl_exact_pos) simp_all
  next
    case 2
    then show ?thesis by (simp add: fl_def)
  next
    case 3
    then have "fl (of_int (- m) * 2 powi e) = of_int (- m) * 2 powi e"
      using m e by (intro fl_exact_pos) simp_all
    then show ?thesis using fl_minus [of "of_int m * 2 powi e"] by simp
  qed
qed

lemma fl_of_int: "\<bar>m\<bar> < 2 ^ 53 \<Longrightarrow> fl (of_int m) = of_int m"
  using fl_exact [of m 0] by simp


section \<open>Movement and serialization: properties\<close>

lemma and_then_Inr [simp]: "and_then (Inr v) f = f v"
  by (simp add: and_then_def)

lemma and_then_Inl [simp]: "and_then (Inl e) f = Inl e"
  by (simp add: and_then_def)

text \<open>
  Claim C7. Once the status is \<open>COMPLETED\<close> or \<open>GAME_OVER\<close>, \<open>move\<close> in any
  direction is a guarded no-op and not an error: it returns normally, the
  informational message is the only field it sets, and in particular the
  player's location, the move count and the status stay as they were.
\<close>

theorem move_terminal_guard:
  assumes "is_terminal (status state)"
  shows "move levels now lid state direction = (state\<lparr>message := Some ''Game already ended.''\<rparr>, None)
    \<and> location (player (fst (move levels now lid state direction))) = location (player state)
    \<and> move_count (fst (move levels now lid state direction)) = move_count state
    \<and> status (fst (move levels now lid state direction)) = status state"
  using assms by (simp add: move_def)

theorem move_terminal_guard_witness:
  "is_terminal (status (demo_state ''C'' {|''Gem''|} 3 COMPLETED))
   \<and> move demo_levels ''2026-01-01T00:05:00+00:00'' ''demo'' (demo_state ''C'' {|''Gem''|} 3 COMPLETED) ''north''
       = ((demo_state ''C'' {|''Gem''|} 3 COMPLETED)\<lparr>message := Some ''Game already ended.''\<rparr>, None)
   \<and> location (player (fst (move demo_levels ''2026-01-01T00:05:00+00:00'' ''demo''
         (demo_state ''C'' {|''Gem''|} 3 COMPLETED) ''north''))) = ''C''
   \<and> move_count (fst (move demo_levels ''2026-01-01T00:05:00+00:00'' ''demo''
         (demo_state ''C'' {|''Gem''|} 3 COMPLETED) ''north'')) = 3
   \<and> status (fst (move demo_levels ''2026-01-01T00:05:00+00:00'' ''demo''
         (demo_state ''C'' {|''Gem''|} 3 COMPLETED) ''north'')) = COMPLETED"
proof -
  have h: "is_terminal (status (demo_state ''C'' {|''Gem''|} 3 COMPLETED))"
    by (simp add: demo_state_def is_terminal_def)
  show ?thesis
    using h move_terminal_guard [OF h, of demo_levels "''2026-01-01T00:05:00+00:00''" "''demo''" "''north''"]
    by (simp add: demo_state_def)
qed

text \<open>
  Claim C8. In a state that is not terminal, a move in a direction the
  current room has no exit for is a normal outcome and not an error: it
  adds exactly one to the move count, appends the event
  \<open>Bumped into a wall\<close>, sets the wall message and leaves the player's
  location as it was (the autosave that follows stamps \<open>updated_at\<close>).
\<close>

theorem move_blocked:
  assumes "\<not> is_terminal (status state)"
    and "levels lid = Some level"
    and "map_of (rooms (level_map level)) (location (player state)) = Some room"
    and "map_of (exits room) direction = None"
  shows "move levels now lid state direction =
           (state\<lparr>move_count := move_count state + 1,
                  message := Some ''You bumped into a wall.'',
                  event_log := event_log state @ [''Bumped into a wall''],
                  updated_at := now\<rparr>, None)"
  using assms by (simp add: move_def require_level_def autosave_def)

theorem move_blocked_witness:
  "\<not> is_terminal (status demo_start)
   \<and> demo_levels ''demo'' = Some (demo_level MEDIUM)
   \<and> map_of (rooms (level_map (demo_level MEDIUM))) (location (player demo_start)) = Some demo_room_A
   \<and> map_of (exits demo_room_A) ''north'' = None
   \<and> move demo_levels ''2026-01-01T00:00:09+00:00'' ''demo'' demo_start ''north'' =
        (demo_start\<lparr>move_count := 1,
                     message := Some ''You bumped into a wall.'',
                     event_log := [''Started level Demo'', ''Bumped into a wall''],
                     updated_at := ''2026-01-01T00:00:09+00:00''\<rparr>, None)"
proof -
  have h1: "\<not> is_terminal (status demo_start)"
    by (simp add: demo_start_def is_terminal_def)
  have h2: "demo_levels ''demo'' = Some (demo_level MEDIUM)"
    by (simp add: demo_levels_def)
  have h3: "map_of (rooms (level_map (demo_level MEDIUM))) (location (player demo_start)) = Some demo_room_A"
    by (simp add: demo_level_def demo_map_def demo_start_def)
  have h4: "map_of (exits demo_room_A) ''north'' = None"
    by (simp add: demo_room_A_def)
  show ?thesis
    using h1 h2 h3 h4
      move_blocked [where levels = demo_levels and lid = "''demo''" and state = demo_start
        and now = "''2026-01-01T00:00:09+00:00''", OF h1 h2 h3 h4]
    by (simp add: demo_start_def)
qed

lemma persist_or_finalize_fst:
  "fst (persist_or_finalize levels now lid state) = state\<lparr>updated_at := now\<rparr>"
  by (simp add: persist_or_finalize_def autosave_def Let_def split: sum.splits)

lemma status_on_enter: "status (on_enter it state) = status state"
  by (cases it) simp_all

lemma collected_on_enter_Villain: "collected_items (on_enter (Villain n) state) = collected_items state"
  by simp

text \<open>
  Claim C6. A move from a state that is not terminal into a room: if the
  room holds the villain, the status becomes \<open>COMPLETED\<close> with the win
  message when the collected items are a superset of the level's required
  items, and \<open>GAME_OVER\<close> with the loss message otherwise; if the room does
  not hold the villain, the status is left as it was.
\<close>

theorem move_rules_evaluation:
  assumes "\<not> is_terminal (status state)"
    and "levels lid = Some level"
    and "map_of (rooms (level_map level)) (location (player state)) = Some room"
    and "map_of (exits room) direction = Some next_room"
    and "map_of (rooms (level_map level)) next_room = Some entered_room"
  shows "(is_Villain (item entered_room) \<and> required_items (rules level) |\<subseteq>| collected_items state \<longrightarrow>
            status (fst (move levels now lid state direction)) = COMPLETED \<and>
            message (fst (move levels now lid state direction)) = Some ''You defeated the villain!'')
       \<and> (is_Villain (item entered_room) \<and> \<not> required_items (rules level) |\<subseteq>| collected_items state \<longrightarrow>
            status (fst (move levels now lid state direction)) = GAME_OVER \<and>
            message (fst (move levels now lid state direction)) = Some ''You found the villain too soon.'')
       \<and> (\<not> is_Villain (item entered_room) \<longrightarrow>
            status (fst (move levels now lid state direction)) = status state)"
proof (cases "item entered_room")
  case None
  then show ?thesis using assms
    by (simp add: move_def require_level_def Let_def persist_or_finalize_fst visit_def check_def)
next
  case (Some it)
  then show ?thesis using assms
    by (cases it)
       (simp_all add: move_def require_level_def Let_def persist_or_finalize_fst visit_def check_def)
qed


theorem move_rules_evaluation_witness:
  "status (fst (move demo_levels ''2026-01-01T00:00:09+00:00'' ''demo''
       (demo_state ''A'' {|''Gem''|} 2 IN_PROGRESS) ''south'')) = COMPLETED
   \<and> message (fst (move demo_levels ''2026-01-01T00:00:09+00:00'' ''demo''
       (demo_state ''A'' {|''Gem''|} 2 IN_PROGRESS) ''south'')) = Some ''You defeated the villain!''
   \<and> status (fst (move demo_levels ''2026-01-01T00:00:09+00:00'' ''demo'' demo_start ''south'')) = GAME_OVER
   \<and> message (fst (move demo_levels ''2026-01-01T00:00:09+00:00'' ''demo'' demo_start ''south''))
        = Some ''You found the villain too soon.''
   \<and> status (fst (move demo_levels ''2026-01-01T00:00:09+00:00'' ''demo'' demo_start ''east'')) = IN_PROGRESS"
proof -
  have l: "demo_levels ''demo'' = Some (demo_level MEDIUM)"
    by (simp add: demo_levels_def)
  have a: "map_of (rooms (level_map (demo_level MEDIUM))) ''A'' = Some demo_room_A"
    and b: "map_of (rooms (level_map (demo_level MEDIUM))) ''B'' = Some demo_room_B"
    and c: "map_of (rooms (level_map (demo_level MEDIUM))) ''C'' = Some demo_room_C"
    by (simp_all add: demo_level_def demo_map_def)
  have s: "map_of (exits demo_room_A) ''south'' = Some ''C''"
    and e: "map_of (exits demo_room_A) ''east'' = Some ''B''"
    by (simp_all add: demo_room_A_def)
  have win: "\<not> is_terminal (status (demo_state ''A'' {|''Gem''|} 2 IN_PROGRESS))"
    "map_of (rooms (level_map (demo_level MEDIUM)))
       (location (player (demo_state ''A'' {|''Gem''|} 2 IN_PROGRESS))) = Some demo_room_A"
    using a by (simp_all add: demo_state_def is_terminal_def)
  have st: "\<not> is_terminal (status demo_start)"
    "map_of (rooms (level_map (demo_level MEDIUM))) (location (player demo_start)) = Some demo_room_A"
    using a by (simp_all add: demo_start_def is_terminal_def)
  show ?thesis
    using move_rules_evaluation [where levels = demo_levels and lid = "''demo''"
        and now = "''2026-01-01T00:00:09+00:00''", OF win(1) l win(2) s c]
      move_rules_evaluation [where levels = demo_levels and lid = "''demo''"
        and now = "''2026-01-01T00:00:09+00:00''", OF st(1) l st(2) s c]
      move_rules_evaluation [where levels = demo_levels and lid = "''demo''"
        and now = "''2026-01-01T00:00:09+00:00''", OF st(1) l st(2) e b]
    by (simp add: demo_room_B_def demo_room_C_def demo_level_def demo_state_def demo_start_def)
qed

lemma strs_map_JStr: "strs (map JStr xs) = Inr xs"
  by (induction xs) simp_all

lemma fset_of_list_list_of_set: "fset_of_list (list_of_set S) = S"
  by (simp add: list_of_set_def)

lemma GameStatus_roundtrip: "GameStatus_of_value (JStr (status_value st)) = Inr st"
  by (cases st) (simp_all add: GameStatus_of_value_def)

lemma message_roundtrip:
  "as_optional_str (case m of None \<Rightarrow> JNone | Some x \<Rightarrow> JStr x) = Inr m"
  by (cases m) simp_all

lemma on_enter_frame:
  "player (on_enter it state) = player state"
  "visited_rooms (on_enter it state) = visited_rooms state"
  by (cases it; simp)+

lemma check_frame:
  "player (check r state room) = player state"
  "visited_rooms (check r state room) = visited_rooms state"
  by (simp_all add: check_def)

lemma move_location_visited:
  assumes "location (player state) |\<in>| visited_rooms state"
  shows "location (player (fst (move levels now lid state direction)))
           |\<in>| visited_rooms (fst (move levels now lid state direction))"
  using assms
  by (auto simp: move_def require_level_def Let_def persist_or_finalize_fst visit_def autosave_def
        on_enter_frame check_frame split: sum.splits option.splits)

lemma reachable_location_visited:
  "reachable levels state \<Longrightarrow> location (player state) |\<in>| visited_rooms state"
proof (induction rule: reachable.induct)
  case (start t_started t_updated now lid state)
  then show ?case
    by (auto simp: start_new_run_def require_level_def GameState_start_def visit_def autosave_def
          Let_def split: option.splits)
next
  case (step state now lid direction)
  from step.IH show ?case by (rule move_location_visited)
qed

lemma from_dict_to_dict:
  assumes "fromisoformat (isoformat (started_at state)) = Inr (started_at state)"
    and "fromisoformat (isoformat (updated_at state)) = Inr (updated_at state)"
  shows "gamestate_from_dict fromisoformat (gamestate_to_dict isoformat state) =
           Inr (state\<lparr>visited_rooms := finsert (location (player state)) (visited_rooms state)\<rparr>)"
  using assms
  by (simp add: gamestate_from_dict_def gamestate_to_dict_def strs_map_JStr
        fset_of_list_list_of_set GameStatus_roundtrip message_roundtrip Let_def)

lemma from_dict_location_visited:
  "gamestate_from_dict fromisoformat data = Inr s \<Longrightarrow> location (player s) |\<in>| visited_rooms s"
  by (auto simp: gamestate_from_dict_def and_then_def Let_def split: sum.splits)

text \<open>
  Claim C9. For every reachable session state, deserializing its serialized
  form gives back a state equal to the original in every field, and
  deserialization (of any dictionary it accepts) puts the current location
  into \<open>visited_rooms\<close>. The standard library's \<^verbatim>\<open>isoformat\<close> and
  \<^verbatim>\<open>fromisoformat\<close> are parameters; the round trip relies on their documented
  contract that the second inverts the first.
\<close>

theorem serialization_roundtrip:
  assumes "\<forall>t. fromisoformat (isoformat t) = Inr t"
    and "reachable levels state"
  shows "gamestate_from_dict fromisoformat (gamestate_to_dict isoformat state) = Inr state
       \<and> (\<forall>data s. gamestate_from_dict fromisoformat data = Inr s \<longrightarrow>
             location (player s) |\<in>| visited_rooms s)"
proof -
  have "location (player state) |\<in>| visited_rooms state"
    using assms(2) by (rule reachable_location_visited)
  then have "state\<lparr>visited_rooms := finsert (location (player state)) (visited_rooms state)\<rparr> = state"
    by (simp add: finsert_absorb)
  then show ?thesis
    using from_dict_to_dict [of fromisoformat isoformat state] assms(1)
      from_dict_location_visited [of fromisoformat]
    by auto
qed

theorem serialization_roundtrip_witness:
  "(\<forall>t :: string. (Inr ((\<lambda>t. t) t) :: error + string) = Inr t)
   \<and> reachable demo_levels demo_start
   \<and> gamestate_from_dict Inr (gamestate_to_dict (\<lambda>t. t) demo_start) = Inr demo_start
   \<and> location (player demo_start) |\<in>| visited_rooms demo_start"
proof -
  have "start_new_run demo_levels ''2026-01-01T00:00:00+00:00'' ''2026-01-01T00:00:01+00:00''
          ''2026-01-01T00:00:02+00:00'' ''demo'' = Inr demo_start"
    by (simp add: start_new_run_def require_level_def demo_levels_def demo_level_def
          GameState_start_def visit_def autosave_def demo_start_def)
  then have r: "reachable demo_levels demo_start" by (rule reachable.start)
  have i: "\<forall>t :: string. (Inr ((\<lambda>t. t) t) :: error + string) = Inr t" by simp
  from serialization_roundtrip [OF i r] show ?thesis using r by blast
qed


section \<open>Scoring: properties\<close>

lemma fl_zero: "fl 0 = 0"
  by (simp add: fl_def)

lemma fl_pow2: "fl (2 ^ k) = 2 ^ k"
  using fl_exact [of 1 "int k"] by (simp add: power_int_def)

lemma fl_abs_le:
  assumes "\<bar>x\<bar> \<le> 2 ^ k"
  shows "\<bar>fl x\<bar> \<le> 2 ^ k"
proof -
  have "fl x \<le> fl (2 ^ k)" using assms by (intro fl_mono) simp
  moreover have "fl (- (2 ^ k)) \<le> fl x" using assms by (intro fl_mono) simp
  ultimately show ?thesis by (simp add: fl_pow2 fl_minus abs_le_iff)
qed

lemma to_double_Inr:
  assumes "\<bar>x\<bar> \<le> 2 ^ k" "k < 1024"
  shows "to_double x = Inr (fl x)"
proof -
  have "\<bar>fl x\<bar> \<le> 2 ^ k" using assms(1) by (rule fl_abs_le)
  also have "(2::rat) ^ k < 2 ^ 1024" using assms(2) by (intro power_strict_increasing) simp_all
  finally show ?thesis by (simp add: to_double_def Let_def)
qed

lemma fl_quarters: "\<bar>k\<bar> < 2 ^ 53 \<Longrightarrow> fl (of_int k / 4) = of_int k / 4"
proof -
  assume k: "\<bar>k\<bar> < 2 ^ 53"
  have e: "(2::rat) powi (- 2) = 1 / 4" by (simp add: power_int_def power2_eq_square)
  have "of_int k * (2::rat) powi (- 2) = of_int k / 4" by (simp add: e)
  then show ?thesis using fl_exact [of k "- 2"] k by simp
qed

lemma fl_le_of_le_pow2: "x \<le> 2 ^ k \<Longrightarrow> fl x \<le> 2 ^ k"
  using fl_mono [of x "2 ^ k"] by (simp add: fl_pow2)

lemma float_of_int_exact: "\<bar>n\<bar> < 2 ^ 53 \<Longrightarrow> float_of_int n = Inr (of_int n)"
proof -
  assume n: "\<bar>n\<bar> < 2 ^ 53"
  then have "\<bar>of_int n :: rat\<bar> \<le> 2 ^ 53"
    by (metis less_imp_le of_int_abs of_int_le_iff of_int_numeral of_int_power)
  then have "to_double (of_int n) = Inr (fl (of_int n))" by (rule to_double_Inr) simp
  then show ?thesis using n by (simp add: float_of_int_def fl_of_int)
qed


lemma progress_points_bounds:
  assumes "c < 2 ^ 32"
  shows "0 \<le> progress_points c t" "progress_points c t < 2 ^ 42"
proof -
  have "0 \<le> progress_points c t \<and> progress_points c t < 2 ^ 42"
  proof (cases "t = 0")
    case True
    then show ?thesis by (simp add: progress_points_def)
  next
    case False
    define q where "q = fl (of_nat c / of_nat t)"
    have "(of_nat c :: rat) / of_nat t \<le> of_nat c" using False
      by (simp add: divide_le_eq mult_le_cancel_left1) 
    also have "(of_nat c :: rat) \<le> 2 ^ 32" using assms
      by (metis less_imp_le of_nat_le_iff of_nat_numeral of_nat_power)
    finally have "q \<le> 2 ^ 32" unfolding q_def by (rule fl_le_of_le_pow2)
    moreover have q0: "0 \<le> q" unfolding q_def by (intro fl_nonneg) simp
    ultimately have "500 * q \<le> 2 ^ 41" by simp
    then have "fl (500 * q) \<le> 2 ^ 41" by (rule fl_le_of_le_pow2)
    moreover have "0 \<le> fl (500 * q)" using q0 by (intro fl_nonneg) simp
    ultimately have "0 \<le> \<lfloor>fl (500 * q)\<rfloor> \<and> \<lfloor>fl (500 * q)\<rfloor> < 2 ^ 42"
      by (simp add: floor_less_iff)
    then show ?thesis using False by (simp add: progress_points_def q_def)
  qed
  then show "0 \<le> progress_points c t" "progress_points c t < 2 ^ 42" by simp_all
qed

lemma progress_score_eq:
  assumes "fcard (collected_items state) < 2 ^ 32"
  shows "progress_score state level =
           Inr (progress_points (fcard (collected_items state)) (fcard (required_items (rules level))))"
proof (cases "fcard (required_items (rules level)) = 0")
  case True
  have "to_double 0 = Inr 0" using to_double_Inr [of 0 0] by (simp add: fl_zero)
  then show ?thesis using True
    by (simp add: progress_score_def progress_points_def int_mul_float_def MAX_PROGRESS_SCORE_def
          float_of_int_exact float_mul_def int_of_float_def)
next
  case False
  define c where "c = fcard (collected_items state)"
  define t where "t = fcard (required_items (rules level))"
  define q where "q = fl (of_nat c / of_nat t)"
  have t: "t \<noteq> 0" using False by (simp add: t_def)
  have "(of_nat c :: rat) / of_nat t \<le> of_nat c" using t
    by (simp add: divide_le_eq mult_le_cancel_left1) 
  also have "(of_nat c :: rat) \<le> 2 ^ 32" using assms unfolding c_def
    by (metis less_imp_le of_nat_le_iff of_nat_numeral of_nat_power)
  finally have le: "(of_nat c :: rat) / of_nat t \<le> 2 ^ 32" .
  have ge: "0 \<le> (of_nat c :: rat) / of_nat t" by simp
  have d: "true_div (int c) (int t) = Inr q"
    using to_double_Inr [of "of_nat c / of_nat t" 32] le ge t
    by (simp add: true_div_def q_def)
  have q1: "0 \<le> q" unfolding q_def using ge by (rule fl_nonneg)
  have q2: "q \<le> 2 ^ 32" unfolding q_def using le by (rule fl_le_of_le_pow2)
  note q = q1 q2
  then have "\<bar>500 * q\<bar> \<le> 2 ^ 41" by simp
  then have m: "to_double (500 * q) = Inr (fl (500 * q))" by (rule to_double_Inr) simp
  have "0 \<le> fl (500 * q)" using q(1) by (intro fl_nonneg) simp
  then show ?thesis using t d m
    by (simp add: progress_score_def progress_points_def int_mul_float_def MAX_PROGRESS_SCORE_def
          float_of_int_exact float_mul_def int_of_float_def flip: c_def t_def q_def)
qed

lemma efficiency_value_bounds:
  assumes "case om of None \<Rightarrow> True | Some n \<Rightarrow> 0 \<le> n"
  shows "0 \<le> efficiency_value om mc" "efficiency_value om mc \<le> 1"
proof -
  show "efficiency_value om mc \<le> 1"
    by (simp add: efficiency_value_def split: option.splits)
  show "0 \<le> efficiency_value om mc"
  proof (cases om)
    case None
    then show ?thesis by (simp add: efficiency_value_def)
  next
    case (Some n)
    show ?thesis
    proof (cases "n = 0 \<or> mc \<le> 0")
      case True
      then show ?thesis using Some by (auto simp: efficiency_value_def)
    next
      case False
      then have "0 \<le> (of_int n :: rat) / of_int mc" using assms Some by simp
      then have "0 \<le> fl (of_int n / of_int mc)" by (rule fl_nonneg)
      then show ?thesis using Some False by (simp add: efficiency_value_def)
    qed
  qed
qed

lemma int_div_le:
  assumes "0 \<le> a" "0 < b"
  shows "(of_int a :: rat) / of_int b \<le> of_int a"
proof -
  have "(1::rat) \<le> of_int b" using assms(2) by (metis int_one_le_iff_zero_less of_int_1_le_iff)
  then show ?thesis using assms(1) by (simp add: divide_le_eq mult_le_cancel_left1)
qed

lemma of_int_le_pow2: "n < 2 ^ k \<Longrightarrow> (of_int n :: rat) \<le> 2 ^ k"
  by (metis less_imp_le of_int_le_iff of_int_numeral of_int_power)

lemma efficiency_eq:
  assumes "case optimal_moves level of None \<Rightarrow> True | Some n \<Rightarrow> 0 \<le> n \<and> n < 2 ^ 63"
  shows "efficiency state level = Inr (efficiency_value (optimal_moves level) (move_count state))"
proof (cases "optimal_moves level")
  case None
  then show ?thesis by (simp add: efficiency_def optimal_moves_falsy_def efficiency_value_def)
next
  case (Some n)
  show ?thesis
  proof (cases "n = 0 \<or> move_count state \<le> 0")
    case True
    then show ?thesis using Some
      by (auto simp: efficiency_def optimal_moves_falsy_def efficiency_value_def)
  next
    case False
    then have n: "0 < n" "n < 2 ^ 63" and mc: "0 < move_count state" using assms Some by simp_all
    have "(of_int n :: rat) / of_int (move_count state) \<le> of_int n"
      using n(1) mc by (intro int_div_le) simp_all
    also have "(of_int n :: rat) \<le> 2 ^ 63" using n(2) by (rule of_int_le_pow2)
    finally have le: "(of_int n :: rat) / of_int (move_count state) \<le> 2 ^ 63" .
    have ge: "0 \<le> (of_int n :: rat) / of_int (move_count state)" using n(1) mc by simp
    have "to_double (of_int n / of_int (move_count state)) = Inr (fl (of_int n / of_int (move_count state)))"
      using le ge by (intro to_double_Inr [where k = 63]) simp_all
    then show ?thesis using Some False
      by (simp add: efficiency_def optimal_moves_falsy_def efficiency_value_def true_div_def
            float_min_def min_def)
  qed
qed

lemma fl_1000: "fl 1000 = 1000"
  using fl_of_int [of 1000] by simp

lemma efficiency_points_bounds:
  assumes "case om of None \<Rightarrow> True | Some n \<Rightarrow> 0 \<le> n"
  shows "0 \<le> efficiency_points om mc" "efficiency_points om mc \<le> 1000"
proof -
  note b = efficiency_value_bounds [OF assms, of mc]
  have "0 \<le> 1000 * efficiency_value om mc" using b(1) by simp
  then have "0 \<le> fl (1000 * efficiency_value om mc)" by (rule fl_nonneg)
  then show "0 \<le> efficiency_points om mc" by (simp add: efficiency_points_def)
  have "1000 * efficiency_value om mc \<le> 1000" using b(2) by simp
  then have "fl (1000 * efficiency_value om mc) \<le> fl 1000" by (rule fl_mono)
  then show "efficiency_points om mc \<le> 1000"
    by (simp add: efficiency_points_def fl_1000 floor_le_iff)
qed

lemma multiplier_quarters:
  "\<exists>j. 3 \<le> j \<and> j \<le> 5 \<and> multiplier p = of_int j / 4"
proof (cases p)
  case EasyScoring
  then show ?thesis by (intro exI [of _ 3]) simp
next
  case MediumScoring
  then show ?thesis by (intro exI [of _ 4]) simp
next
  case HardScoring
  then show ?thesis by (intro exI [of _ 5]) simp
qed

lemma to_double_exact:
  assumes "fl x = x" "\<bar>x\<bar> \<le> 2 ^ k" "k < 1024"
  shows "to_double x = Inr x"
  using to_double_Inr [OF assms(2,3)] assms(1) by simp

lemma win_score_eq:
  assumes pp: "0 \<le> pp" "pp < 2 ^ 42" and ep: "0 \<le> ep" "ep \<le> 1000"
  shows "and_then (int_mul_float ep (multiplier p))
           (\<lambda>scaled. and_then (int_add_float (WIN_BASE + pp) scaled)
              (\<lambda>final. Inr (int_of_float final)))
         = Inr \<lfloor>of_int (1000 + pp) + of_int ep * multiplier p\<rfloor>"
proof -
  obtain j where j: "3 \<le> j" "j \<le> 5" "multiplier p = of_int j / 4"
    using multiplier_quarters by blast
  have "0 \<le> ep * j" using ep(1) j(1) by simp
  moreover have "ep * j \<le> 1000 * 5" using ep j by (intro mult_mono) simp_all
  ultimately have epj: "0 \<le> ep * j" "ep * j \<le> 5000" by simp_all
  have s1: "of_int ep * multiplier p = (of_int (ep * j) :: rat) / 4" by (simp add: j(3))
  have f1: "fl (of_int (ep * j) / 4) = of_int (ep * j) / 4"
    using epj by (intro fl_quarters) simp
  have b1: "\<bar>(of_int (ep * j) :: rat) / 4\<bar> \<le> 2 ^ 13"
  proof -
    have "(of_int (ep * j) :: rat) \<le> of_int 5000" using epj(2) by (simp only: of_int_le_iff)
    moreover have "0 \<le> (of_int (ep * j) :: rat)" using epj(1) by (simp only: of_int_0_le_iff)
    ultimately show ?thesis by simp
  qed
  have m: "int_mul_float ep (multiplier p) = Inr (of_int (ep * j) / 4)"
    using ep to_double_exact [OF f1 b1]
    by (simp add: int_mul_float_def float_of_int_exact float_mul_def s1)
  define k where "k = 4 * (1000 + pp) + ep * j"
  have k: "0 \<le> k" "k < 2 ^ 45" using pp epj by (simp_all add: k_def)
  have s2: "of_int (1000 + pp) + (of_int (ep * j) :: rat) / 4 = of_int k / 4"
    by (simp add: k_def)
  have f2: "fl (of_int k / 4) = of_int k / 4" using k by (intro fl_quarters) simp
  have b2: "\<bar>(of_int k :: rat) / 4\<bar> \<le> 2 ^ 45"
  proof -
    have "(of_int k :: rat) \<le> 2 ^ 45" using k(2) by (rule of_int_le_pow2)
    moreover have "0 \<le> (of_int k :: rat)" using k(1) by (simp only: of_int_0_le_iff)
    ultimately show ?thesis by simp
  qed
  have eq: "of_int (WIN_BASE + pp) + (of_int (ep * j) :: rat) / 4 = of_int k / 4"
    by (simp add: k_def WIN_BASE_def)
  have fo: "float_of_int (WIN_BASE + pp) = Inr (of_int (WIN_BASE + pp))"
    using pp by (intro float_of_int_exact) (simp add: WIN_BASE_def)
  have a: "int_add_float (WIN_BASE + pp) (of_int (ep * j) / 4) = Inr (of_int k / 4)"
    by (simp only: int_add_float_def fo and_then_Inr float_add_def eq to_double_exact [OF f2 b2])
  have "0 \<le> (of_int k :: rat) / 4" using k(1) by simp
  then show ?thesis
    by (simp add: m a int_of_float_def s1 s2 del: of_int_add of_int_mult)
qed

lemma StandardScore_eq:
  assumes "well_formed_inputs state level"
  shows "StandardScore_calculate state level = Inr (standard_points state level)"
proof -
  define pp where "pp = progress_points (fcard (collected_items state)) (fcard (required_items (rules level)))"
  define ep where "ep = efficiency_points (optimal_moves level) (move_count state)"
  have c: "fcard (collected_items state) < 2 ^ 32"
    and om: "case optimal_moves level of None \<Rightarrow> True | Some n \<Rightarrow> 0 \<le> n \<and> n < 2 ^ 63"
    using assms by (simp_all add: well_formed_inputs_def)
  have om': "case optimal_moves level of None \<Rightarrow> True | Some n \<Rightarrow> 0 \<le> n"
    using om by (simp split: option.splits)
  have p: "progress_score state level = Inr pp" unfolding pp_def using c by (rule progress_score_eq)
  have ppb: "0 \<le> pp" "pp < 2 ^ 42" unfolding pp_def using c by (rule progress_points_bounds)+
  have e: "efficiency state level = Inr (efficiency_value (optimal_moves level) (move_count state))"
    using om by (rule efficiency_eq)
  note evb = efficiency_value_bounds [OF om', of "move_count state"]
  have epb: "0 \<le> ep" "ep \<le> 1000" unfolding ep_def using om' by (rule efficiency_points_bounds)+
  have "\<bar>1000 * efficiency_value (optimal_moves level) (move_count state)\<bar> \<le> 2 ^ 10"
    using evb by simp
  then have t: "to_double (1000 * efficiency_value (optimal_moves level) (move_count state))
      = Inr (fl (1000 * efficiency_value (optimal_moves level) (move_count state)))"
    by (rule to_double_Inr) simp
  have f0: "0 \<le> fl (1000 * efficiency_value (optimal_moves level) (move_count state))"
    using evb(1) by (intro fl_nonneg) simp
  have es: "int_mul_float MAX_EFFICIENCY_SCORE (efficiency_value (optimal_moves level) (move_count state))
      = Inr (fl (1000 * efficiency_value (optimal_moves level) (move_count state)))"
    using t by (simp add: int_mul_float_def MAX_EFFICIENCY_SCORE_def float_of_int_exact float_mul_def)
  have ie: "int_of_float (fl (1000 * efficiency_value (optimal_moves level) (move_count state))) = ep"
    using f0 by (simp add: int_of_float_def ep_def efficiency_points_def)
  show ?thesis
    unfolding StandardScore_calculate_def standard_points_def
    by (simp add: p e es ie Let_def win_score_eq [OF ppb epb] flip: pp_def ep_def)
qed


lemma standard_points_bounds:
  assumes "well_formed_inputs state level"
  shows "0 \<le> standard_points state level" "standard_points state level < 2 ^ 43"
proof -
  define pp where "pp = progress_points (fcard (collected_items state)) (fcard (required_items (rules level)))"
  define ep where "ep = efficiency_points (optimal_moves level) (move_count state)"
  have c: "fcard (collected_items state) < 2 ^ 32"
    and om: "case optimal_moves level of None \<Rightarrow> True | Some n \<Rightarrow> 0 \<le> n"
    using assms by (simp_all add: well_formed_inputs_def split: option.splits)
  have ppb: "0 \<le> pp" "pp < 2 ^ 42" unfolding pp_def using c by (rule progress_points_bounds)+
  have epb: "0 \<le> ep" "ep \<le> 1000" unfolding ep_def using om by (rule efficiency_points_bounds)+
  obtain j where j: "3 \<le> j" "j \<le> 5" "multiplier (scoring_policy (difficulty level)) = of_int j / 4"
    using multiplier_quarters by blast
  define w :: rat where "w = of_int (1000 + pp) + of_int ep * (of_int j / 4)"
  have "0 \<le> (of_int ep :: rat) * (of_int j / 4)" using epb(1) j(1) by simp
  moreover have "0 \<le> (of_int (1000 + pp) :: rat)" using ppb(1) by (simp only: of_int_0_le_iff)
  ultimately have w0: "0 \<le> w" by (simp add: w_def)
  have "(of_int ep :: rat) * (of_int j / 4) \<le> 1000 * (5 / 4)"
    using epb j by (intro mult_mono) simp_all
  moreover have "(of_int (1000 + pp) :: rat) \<le> of_int (1000 + 2 ^ 42)"
    using ppb(2) by (simp only: of_int_le_iff)
  ultimately have w1: "w < 2 ^ 43" by (simp add: w_def)
  have "0 \<le> \<lfloor>w\<rfloor> \<and> \<lfloor>w\<rfloor> < 2 ^ 43" using w0 w1 by (simp add: floor_less_iff)
  then have "0 \<le> standard_points state level \<and> standard_points state level < 2 ^ 43"
    using ppb by (simp add: standard_points_def Let_def j(3) w_def flip: pp_def ep_def)
  then show "0 \<le> standard_points state level" "standard_points state level < 2 ^ 43" by simp_all
qed

lemma MaxMovesScore_eq:
  assumes "well_formed_inputs state level"
  shows "MaxMovesScore_calculate state level =
           Inr (let base = standard_points state level
                in case optimal_moves level of
                     None \<Rightarrow> base
                   | Some n \<Rightarrow>
                       if status state = COMPLETED \<and> n \<noteq> 0 \<and> n < move_count state
                       then max (base - penalty_points base (move_count state) n) 0
                       else base)"
proof -
  define base where "base = standard_points state level"
  have s: "StandardScore_calculate state level = Inr base"
    unfolding base_def using assms by (rule StandardScore_eq)
  have bb: "0 \<le> base" "base < 2 ^ 43" unfolding base_def using assms by (rule standard_points_bounds)+
  show ?thesis
  proof (cases "optimal_moves level")
    case None
    then show ?thesis
      by (simp add: MaxMovesScore_calculate_def s optimal_moves_falsy_def Let_def flip: base_def)
  next
    case (Some n)
    show ?thesis
    proof (cases "status state = COMPLETED \<and> n \<noteq> 0 \<and> n < move_count state")
      case False
      then show ?thesis using Some
        by (auto simp: MaxMovesScore_calculate_def s optimal_moves_falsy_def Let_def simp flip: base_def)
    next
      case True
      have n: "0 < n" and mc: "move_count state < 2 ^ 63"
        using assms Some True by (simp_all add: well_formed_inputs_def)
      define q where "q = fl (of_int (move_count state - n) / of_int n)"
      define r where "r = min q 1"
      have "(of_int (move_count state - n) :: rat) / of_int n \<le> of_int (move_count state - n)"
        using n True by (intro int_div_le) simp_all
      also have "(of_int (move_count state - n) :: rat) \<le> 2 ^ 63"
        using mc n by (intro of_int_le_pow2) simp
      finally have le: "(of_int (move_count state - n) :: rat) / of_int n \<le> 2 ^ 63" .
      have ge: "0 \<le> (of_int (move_count state - n) :: rat) / of_int n" using n True by simp
      have d: "true_div (move_count state - n) n = Inr q"
        using to_double_Inr [of "of_int (move_count state - n) / of_int n" 63] le ge n
        by (simp add: true_div_def q_def)
      have q0: "0 \<le> q" unfolding q_def using ge by (rule fl_nonneg)
      have r: "0 \<le> r" "r \<le> 1" using q0 by (simp_all add: r_def)
      have fm: "float_min q 1 = r" by (simp add: float_min_def r_def min_def)
      have fb: "float_of_int base = Inr (of_int base)"
        using bb by (intro float_of_int_exact) simp
      have b0: "0 \<le> (of_int base :: rat)" using bb(1) by (simp only: of_int_0_le_iff)
      have b1: "(of_int base :: rat) \<le> 2 ^ 43" using bb(2) by (rule of_int_le_pow2)
      have "of_int base * r \<le> of_int base * 1" using r(2) b0 by (intro mult_left_mono)
      then have x1: "of_int base * r \<le> 2 ^ 43" using b1 by simp
      have x0: "0 \<le> of_int base * r" using b0 r(1) by simp
      define x where "x = fl (of_int base * r)"
      have m1: "to_double (of_int base * r) = Inr x"
        unfolding x_def using x0 x1 by (intro to_double_Inr [where k = 43]) simp_all
      have xb0: "0 \<le> x" unfolding x_def using x0 by (rule fl_nonneg)
      have xb1: "x \<le> 2 ^ 43" unfolding x_def using x1 by (rule fl_le_of_le_pow2)
      note xb = xb0 xb1
      have m2: "to_double (x / 2) = Inr (fl (x / 2))"
        using xb by (intro to_double_Inr [where k = 43]) simp_all
      have y0: "0 \<le> fl (x / 2)" using xb(1) by (intro fl_nonneg) simp
      have pen: "int_of_float (fl (x / 2)) = penalty_points base (move_count state) n"
        using y0 by (simp add: int_of_float_def penalty_points_def x_def r_def q_def)
      show ?thesis using Some True n
        by (simp add: MaxMovesScore_calculate_def s optimal_moves_falsy_def Let_def d fm
              int_mul_float_def fb float_mul_def m1 m2 pen OVERAGE_PENALTY_FACTOR_def
              flip: base_def)
    qed
  qed
qed

lemma fcard_stones: "fcard stones = 6"
  by (simp add: stones_def fcard_finsert_if)

lemma pp66: "progress_points 6 6 = 500" by code_simp
lemma pp56: "progress_points 5 6 = 416" by code_simp
lemma ep714: "efficiency_points (Some 7) 14 = 500" by code_simp
lemma ep77: "efficiency_points (Some 7) 7 = 1000" by code_simp
lemma pen: "penalty_points 2125 14 7 = 1062" by code_simp


lemma zero_won_eq:
  "zero_won d =
     \<lparr>level_id = ''zero'', player = \<lparr>location = ''Lair''\<rparr>, visited_rooms = {|''Lair'', ''Hall''|},
      collected_items = {||}, move_count = 2, status = COMPLETED,
      message = Some ''You defeated the villain!'',
      event_log = [''Started level Zero'', ''Moved north to Hall'', ''Moved south to Lair'',
                   ''Encountered the villain''],
      started_at = ''2026-01-01T00:00:00+00:00'', updated_at = ''2026-01-01T00:00:04+00:00'',
      encountered_villain = True\<rparr>"
  by (simp add: zero_won_def move_def require_level_def zero_level_def zero_map_def zero_start_def
        is_terminal_def Let_def visit_def check_def persist_or_finalize_fst) auto

lemma StandardScore_not_completed:
  "status state \<noteq> COMPLETED \<Longrightarrow> StandardScore_calculate state level = progress_score state level"
  by (simp add: StandardScore_calculate_def and_then_def split: sum.splits)

lemma MaxMovesScore_not_completed:
  "status state \<noteq> COMPLETED \<Longrightarrow> MaxMovesScore_calculate state level = progress_score state level"
  by (simp add: MaxMovesScore_calculate_def StandardScore_not_completed and_then_def split: sum.splits)

text \<open>
  What the strategies return for a run that is not completed: the progress
  score alone, computed from the number of all collected items over the
  number of required items (0 if there is none), in binary64 arithmetic.
  With 5 items collected and 6 required it is 416.
\<close>

lemma progress_only_score:
  assumes "status state \<noteq> COMPLETED" and "fcard (collected_items state) < 2 ^ 32"
  shows "calculate strategy state level =
           Inr (if fcard (required_items (rules level)) = 0 then 0
                else \<lfloor>fl (500 * fl (of_nat (fcard (collected_items state))
                                      / of_nat (fcard (required_items (rules level)))))\<rfloor>)
       \<and> (fcard (collected_items state) = 5 \<and> fcard (required_items (rules level)) = 6 \<longrightarrow>
            calculate strategy state level = Inr 416)"
proof -
  have "calculate strategy state level = progress_score state level"
    using assms(1) by (cases strategy) (simp_all add: StandardScore_not_completed MaxMovesScore_not_completed)
  then have c: "calculate strategy state level =
      Inr (progress_points (fcard (collected_items state)) (fcard (required_items (rules level))))"
    using progress_score_eq [OF assms(2)] by simp
  have p: "progress_points 5 6 = 416" by code_simp
  show ?thesis
  proof (intro conjI impI)
    show "calculate strategy state level =
           Inr (if fcard (required_items (rules level)) = 0 then 0
                else \<lfloor>fl (500 * fl (of_nat (fcard (collected_items state))
                                      / of_nat (fcard (required_items (rules level)))))\<rfloor>)"
      unfolding c progress_points_def ..
  next
    assume "fcard (collected_items state) = 5 \<and> fcard (required_items (rules level)) = 6"
    then show "calculate strategy state level = Inr 416" unfolding c using p by simp
  qed
qed


text \<open>
  Claim C4, as amended. For a completed state, on well-formed inputs,
  \<open>StandardScore.calculate\<close> raises nothing and returns
  \<open>\<lfloor>1000 + progress_score + efficiency_score * multiplier\<rfloor>\<close> with
  \<open>efficiency_score = \<lfloor>1000 * efficiency\<rfloor>\<close>, where
  \<open>efficiency = min (optimal_moves / move_count) 1\<close> (the quotient rounded to
  binary64) whenever \<open>optimal_moves\<close> is defined and not zero and
  \<open>move_count > 0\<close>, and \<open>efficiency = 1\<close> otherwise.
\<close>

theorem completed_score:
  assumes "status state = COMPLETED" and "well_formed_inputs state level"
  shows "let progress_score =
               (if fcard (required_items (rules level)) = 0 then 0
                else \<lfloor>fl (500 * fl (of_nat (fcard (collected_items state))
                                      / of_nat (fcard (required_items (rules level)))))\<rfloor>);
             efficiency =
               (case optimal_moves level of
                  None \<Rightarrow> 1
                | Some n \<Rightarrow>
                    if n \<noteq> 0 \<and> 0 < move_count state
                    then min (fl (of_int n / of_int (move_count state))) 1 else 1);
             efficiency_score = \<lfloor>fl (1000 * efficiency)\<rfloor>
         in StandardScore_calculate state level =
              Inr \<lfloor>of_int (1000 + progress_score)
                    + of_int efficiency_score * multiplier (scoring_policy (difficulty level))\<rfloor>"
proof -
  have "efficiency_value (optimal_moves level) (move_count state) =
      (case optimal_moves level of
         None \<Rightarrow> 1
       | Some n \<Rightarrow>
           if n \<noteq> 0 \<and> 0 < move_count state
           then min (fl (of_int n / of_int (move_count state))) 1 else 1)"
    by (auto simp: efficiency_value_def split: option.splits)
  then show ?thesis
    unfolding StandardScore_eq [OF assms(2)]
    using assms(1)
    by (simp add: standard_points_def progress_points_def efficiency_points_def Let_def)
qed

text \<open>
  Claim C5, as amended. On well-formed inputs \<open>MaxMovesScore.calculate\<close> first
  computes the standard score \<open>base\<close>. If the state is completed,
  \<open>optimal_moves\<close> is defined and not zero, and \<open>move_count > optimal_moves\<close>, it
  returns \<open>max (base - \<lfloor>base * min ((move_count - optimal_moves) / optimal_moves) 1 * 0.5\<rfloor>) 0\<close>,
  each quotient and product rounded to binary64 as Python does; in every
  other case it returns \<open>base\<close> unchanged.
\<close>

theorem max_moves_score:
  assumes "well_formed_inputs state level"
  shows "\<exists>base. StandardScore_calculate state level = Inr base \<and>
           MaxMovesScore_calculate state level =
             Inr (case optimal_moves level of
                    None \<Rightarrow> base
                  | Some n \<Rightarrow>
                      if status state = COMPLETED \<and> n \<noteq> 0 \<and> n < move_count state
                      then max (base - \<lfloor>fl (fl (of_int base
                                   * min (fl (of_int (move_count state - n) / of_int n)) 1) * (1 / 2))\<rfloor>) 0
                      else base)"
  using StandardScore_eq [OF assms] MaxMovesScore_eq [OF assms]
  unfolding Let_def penalty_points_def by simp

text \<open>
  Claim C10. For a completed state and a level whose \<open>optimal_moves\<close> is 0,
  \<open>StandardScore.calculate\<close> treats the optimum as if it were undefined: the
  efficiency is 1 (not \<open>min (0 / move_count) 1 = 0\<close>), the score is the one of
  the same level with no optimum, and the full efficiency bonus of 1000 times
  the multiplier is awarded; \<open>MaxMovesScore\<close> applies no overage penalty,
  whatever the move count.
\<close>

theorem zero_optimum_counts_as_undefined:
  assumes "status state = COMPLETED" and "optimal_moves level = Some 0"
    and "fcard (collected_items state) < 2 ^ 32"
  shows "efficiency state level = Inr 1
       \<and> StandardScore_calculate state level = StandardScore_calculate state (level\<lparr>optimal_moves := None\<rparr>)
       \<and> (let progress_score =
               (if fcard (required_items (rules level)) = 0 then 0
                else \<lfloor>fl (500 * fl (of_nat (fcard (collected_items state))
                                      / of_nat (fcard (required_items (rules level)))))\<rfloor>)
          in StandardScore_calculate state level =
               Inr \<lfloor>of_int (1000 + progress_score)
                     + 1000 * multiplier (scoring_policy (difficulty level))\<rfloor>)
       \<and> MaxMovesScore_calculate state level = StandardScore_calculate state level"
proof -
  have e: "efficiency state level = Inr 1"
    using assms(2) by (simp add: efficiency_def optimal_moves_falsy_def)
  have e': "efficiency state (level\<lparr>optimal_moves := None\<rparr>) = Inr 1"
    by (simp add: efficiency_def optimal_moves_falsy_def)
  have p': "progress_score state (level\<lparr>optimal_moves := None\<rparr>) = progress_score state level"
    by (simp add: progress_score_def)
  have u: "StandardScore_calculate state level = StandardScore_calculate state (level\<lparr>optimal_moves := None\<rparr>)"
    by (simp add: StandardScore_calculate_def e e' p' cong: if_cong)
  have m: "MaxMovesScore_calculate state level = StandardScore_calculate state level"
    using assms(2)
    by (simp add: MaxMovesScore_calculate_def optimal_moves_falsy_def and_then_def split: sum.splits)
  define pp where "pp = progress_points (fcard (collected_items state)) (fcard (required_items (rules level)))"
  have p: "progress_score state level = Inr pp"
    unfolding pp_def using assms(3) by (rule progress_score_eq)
  have ppb: "0 \<le> pp" "pp < 2 ^ 42" unfolding pp_def using assms(3) by (rule progress_points_bounds)+
  have t: "int_mul_float MAX_EFFICIENCY_SCORE 1 = Inr 1000"
    using to_double_exact [of 1000 10] fl_1000
    by (simp add: int_mul_float_def MAX_EFFICIENCY_SCORE_def float_of_int_exact float_mul_def)
  have w: "and_then (int_mul_float 1000 (multiplier (scoring_policy (difficulty level))))
           (\<lambda>scaled. and_then (int_add_float (WIN_BASE + pp) scaled)
              (\<lambda>final. Inr (int_of_float final)))
         = Inr \<lfloor>of_int (1000 + pp) + of_int 1000 * multiplier (scoring_policy (difficulty level))\<rfloor>"
    using ppb by (intro win_score_eq) simp_all
  have s: "StandardScore_calculate state level =
      Inr \<lfloor>of_int (1000 + pp) + 1000 * multiplier (scoring_policy (difficulty level))\<rfloor>"
    using assms(1) w by (simp add: StandardScore_calculate_def p e t int_of_float_def)
  show ?thesis
    using e u m s by (simp add: Let_def pp_def progress_points_def)
qed


lemma well_formed_with_difficulty:
  "well_formed_inputs state (with_difficulty level d) = well_formed_inputs state level"
  by (simp add: well_formed_inputs_def with_difficulty_def)

lemma standard_points_mono:
  assumes "well_formed_inputs state level"
    and "multiplier (scoring_policy d) \<le> multiplier (scoring_policy d')"
  shows "standard_points state (with_difficulty level d) \<le> standard_points state (with_difficulty level d')"
proof -
  have om: "case optimal_moves level of None \<Rightarrow> True | Some n \<Rightarrow> 0 \<le> n"
    using assms(1) by (simp add: well_formed_inputs_def split: option.splits)
  have "0 \<le> efficiency_points (optimal_moves level) (move_count state)"
    using om by (rule efficiency_points_bounds)
  then have "(of_int (efficiency_points (optimal_moves level) (move_count state)) :: rat) * multiplier (scoring_policy d)
      \<le> of_int (efficiency_points (optimal_moves level) (move_count state)) * multiplier (scoring_policy d')"
    using assms(2) by (intro mult_left_mono) simp_all
  then show ?thesis
    by (simp add: standard_points_def with_difficulty_def Let_def floor_mono del: of_int_add)
qed

text \<open>
  Claim C2, as amended. For one state and levels that differ in difficulty
  only, on well-formed inputs: \<open>score(easy) \<le> score(medium)\<close>, and
  \<open>score(medium)\<close> is at most the hard level's score before its overage
  penalty; so \<open>score(medium) \<le> score(hard)\<close> whenever that penalty does not
  apply, that is, when the state is not completed, \<open>optimal_moves\<close> is
  undefined or zero, or \<open>move_count \<le> optimal_moves\<close>.
\<close>

theorem score_monotone_in_difficulty:
  assumes "well_formed_inputs state level"
  shows "\<exists>e m h b.
           score state (with_difficulty level EASY) = Inr e
         \<and> score state (with_difficulty level MEDIUM) = Inr m
         \<and> score state (with_difficulty level HARD) = Inr h
         \<and> StandardScore_calculate state (with_difficulty level HARD) = Inr b
         \<and> e \<le> m \<and> m \<le> b
         \<and> (status state \<noteq> COMPLETED \<or> optimal_moves level = None \<or> optimal_moves level = Some 0
              \<or> (\<exists>n. optimal_moves level = Some n \<and> move_count state \<le> n) \<longrightarrow> h = b)"
proof -
  have wf: "well_formed_inputs state (with_difficulty level d)" for d
    using assms by (simp add: well_formed_with_difficulty)
  have e: "score state (with_difficulty level EASY) = Inr (standard_points state (with_difficulty level EASY))"
    using StandardScore_eq [OF wf [of EASY]] by (simp add: score_def with_difficulty_def)
  have m: "score state (with_difficulty level MEDIUM) = Inr (standard_points state (with_difficulty level MEDIUM))"
    using StandardScore_eq [OF wf [of MEDIUM]] by (simp add: score_def with_difficulty_def)
  have b: "StandardScore_calculate state (with_difficulty level HARD)
      = Inr (standard_points state (with_difficulty level HARD))"
    using wf by (rule StandardScore_eq)
  have om: "optimal_moves (with_difficulty level HARD) = optimal_moves level"
    by (simp add: with_difficulty_def)
  have "score state (with_difficulty level HARD) = MaxMovesScore_calculate state (with_difficulty level HARD)"
    by (simp add: score_def with_difficulty_def)
  then have h: "score state (with_difficulty level HARD) =
      Inr (case optimal_moves level of
             None \<Rightarrow> standard_points state (with_difficulty level HARD)
           | Some n \<Rightarrow>
               if status state = COMPLETED \<and> n \<noteq> 0 \<and> n < move_count state
               then max (standard_points state (with_difficulty level HARD)
                         - penalty_points (standard_points state (with_difficulty level HARD)) (move_count state) n) 0
               else standard_points state (with_difficulty level HARD))"
    using MaxMovesScore_eq [OF wf [of HARD]] by (simp add: Let_def om)
  have em: "standard_points state (with_difficulty level EASY) \<le> standard_points state (with_difficulty level MEDIUM)"
    using assms by (rule standard_points_mono) simp
  have mb: "standard_points state (with_difficulty level MEDIUM) \<le> standard_points state (with_difficulty level HARD)"
    using assms by (rule standard_points_mono) simp
  show ?thesis
    unfolding e m b h using em mb by (auto split: option.splits)
qed

lemma demo_lost_eq:
  "demo_lost =
     \<lparr>level_id = ''demo'', player = \<lparr>location = ''C''\<rparr>, visited_rooms = {|''C'', ''A'', ''D''|},
      collected_items = {|''Coin''|}, move_count = 3, status = GAME_OVER,
      message = Some ''You found the villain too soon.'',
      event_log = [''Started level Demo'', ''Moved west to D'', ''Collected Coin'',
                   ''Moved east to A'', ''Moved south to C'', ''Encountered the villain''],
      started_at = ''2026-01-01T00:00:00+00:00'', updated_at = ''2026-01-01T00:00:05+00:00'',
      encountered_villain = True\<rparr>"
  by (simp add: demo_lost_def move_def require_level_def demo_levels_def demo_level_def demo_map_def
        demo_room_A_def demo_room_B_def demo_room_C_def demo_room_D_def demo_start_def
        is_terminal_def Let_def visit_def check_def persist_or_finalize_fst) auto

lemma reachable_demo_lost: "reachable demo_levels demo_lost"
proof -
  have "start_new_run demo_levels ''2026-01-01T00:00:00+00:00'' ''2026-01-01T00:00:01+00:00''
          ''2026-01-01T00:00:02+00:00'' ''demo'' = Inr demo_start"
    by (simp add: start_new_run_def require_level_def demo_levels_def demo_level_def
          GameState_start_def visit_def autosave_def demo_start_def)
  then have "reachable demo_levels demo_start" by (rule reachable.start)
  then show ?thesis unfolding demo_lost_def by (intro reachable.step)
qed

lemma demo_both_eq:
  "demo_both =
     \<lparr>level_id = ''demo'', player = \<lparr>location = ''B''\<rparr>, visited_rooms = {|''B'', ''A'', ''D''|},
      collected_items = {|''Gem'', ''Coin''|}, move_count = 3, status = IN_PROGRESS,
      message = Some ''Collected Gem'',
      event_log = [''Started level Demo'', ''Moved west to D'', ''Collected Coin'',
                   ''Moved east to A'', ''Moved east to B'', ''Collected Gem''],
      started_at = ''2026-01-01T00:00:00+00:00'', updated_at = ''2026-01-01T00:00:05+00:00'',
      encountered_villain = False\<rparr>"
  by (simp add: demo_both_def move_def require_level_def demo_levels_def demo_level_def demo_map_def
        demo_room_A_def demo_room_B_def demo_room_C_def demo_room_D_def demo_start_def
        is_terminal_def Let_def visit_def check_def persist_or_finalize_fst) auto

lemma reachable_demo_both: "reachable demo_levels demo_both"
proof -
  have "start_new_run demo_levels ''2026-01-01T00:00:00+00:00'' ''2026-01-01T00:00:01+00:00''
          ''2026-01-01T00:00:02+00:00'' ''demo'' = Inr demo_start"
    by (simp add: start_new_run_def require_level_def demo_levels_def demo_level_def
          GameState_start_def visit_def autosave_def demo_start_def)
  then have "reachable demo_levels demo_start" by (rule reachable.start)
  then show ?thesis unfolding demo_both_def by (intro reachable.step)
qed

text \<open>
  Claim C1; the code departs from it. The claim takes progress to be the
  number of collected items that belong to the level's required-item set,
  divided by the size of that set. \<^verbatim>\<open>StandardScore.calculate\<close> divides the number
  of all collected items instead. In the small level, which requires the Gem
  alone, the run west, east, south ends at the villain with status
  \<open>GAME_OVER\<close>, holding only the Coin: no required item is collected, so the
  claim's score is \<open>\<lfloor>500 * 0 / 1\<rfloor> = 0\<close>, and the code returns 500. After
  west, east, east the run holds the Coin and the Gem, and the code's progress
  score is 1000, twice its own \<open>MAX_PROGRESS_SCORE\<close>.
\<close>

theorem progress_counts_items_not_required:
  "reachable demo_levels demo_lost
   \<and> status demo_lost = GAME_OVER
   \<and> collected_items demo_lost = {|''Coin''|}
   \<and> required_items (rules (demo_level MEDIUM)) = {|''Gem''|}
   \<and> fcard (collected_items demo_lost |\<inter>| required_items (rules (demo_level MEDIUM))) = 0
   \<and> StandardScore_calculate demo_lost (demo_level MEDIUM) = Inr 500
   \<and> reachable demo_levels demo_both
   \<and> status demo_both = IN_PROGRESS
   \<and> collected_items demo_both = {|''Gem'', ''Coin''|}
   \<and> StandardScore_calculate demo_both (demo_level MEDIUM) = Inr 1000
   \<and> MAX_PROGRESS_SCORE = 500"
proof -
  have c: "fcard (collected_items demo_lost) < 2 ^ 32"
    by (simp add: demo_lost_eq fcard_finsert_if fcard_fempty)
  have p: "progress_points (Suc 0) (Suc 0) = 500" by code_simp
  have 1: "StandardScore_calculate demo_lost (demo_level MEDIUM) = Inr 500"
    by (subst StandardScore_not_completed)
       (simp_all add: progress_score_eq [OF c],
        simp_all add: demo_lost_eq demo_level_def fcard_finsert_if fcard_fempty p)
  have c': "fcard (collected_items demo_both) < 2 ^ 32"
    by (simp add: demo_both_eq fcard_finsert_if fcard_fempty)
  have p': "progress_points (Suc (Suc 0)) (Suc 0) = 1000" by code_simp
  have 2: "StandardScore_calculate demo_both (demo_level MEDIUM) = Inr 1000"
    by (subst StandardScore_not_completed)
       (simp_all add: progress_score_eq [OF c'],
        simp_all add: demo_both_eq demo_level_def fcard_finsert_if fcard_fempty p')
  show ?thesis using 1 2 reachable_demo_lost reachable_demo_both
    by (simp add: demo_lost_eq demo_both_eq demo_level_def MAX_PROGRESS_SCORE_def)
qed


lemma fcard_five_stones: "fcard five_stones = 5"
  by (simp add: five_stones_def fcard_finsert_if fcard_fempty)

lemma progress_only_score_example:
  "status (corridor_state five_stones 7 GAME_OVER) \<noteq> COMPLETED
   \<and> fcard (collected_items (corridor_state five_stones 7 GAME_OVER)) = 5
   \<and> fcard (required_items (rules (corridor_level EASY))) = 6
   \<and> calculate StandardScore (corridor_state five_stones 7 GAME_OVER) (corridor_level EASY) = Inr 416"
proof -
  have h1: "status (corridor_state five_stones 7 GAME_OVER) \<noteq> COMPLETED"
    by (simp add: corridor_state_def)
  have c: "fcard (collected_items (corridor_state five_stones 7 GAME_OVER)) = 5"
    by (simp add: corridor_state_def fcard_five_stones)
  have r: "fcard (required_items (rules (corridor_level EASY))) = 6"
    by (simp add: corridor_level_def fcard_stones)
  have h2: "fcard (collected_items (corridor_state five_stones 7 GAME_OVER)) < 2 ^ 32"
    unfolding c by simp
  from progress_only_score [OF h1 h2, of StandardScore "corridor_level EASY"] c r
  have "calculate StandardScore (corridor_state five_stones 7 GAME_OVER) (corridor_level EASY) = Inr 416"
    by blast
  then show ?thesis using h1 c r by blast
qed

theorem zero_optimum_efficiency_counterexample:
  "reachable [''zero'' \<mapsto> zero_level MEDIUM] (zero_won MEDIUM)
   \<and> status (zero_won MEDIUM) = COMPLETED
   \<and> optimal_moves (zero_level MEDIUM) = Some 0
   \<and> move_count (zero_won MEDIUM) = 2
   \<and> efficiency (zero_won MEDIUM) (zero_level MEDIUM) = Inr 1
   \<and> min (fl (of_int 0 / of_int 2)) 1 = 0
   \<and> StandardScore_calculate (zero_won MEDIUM) (zero_level MEDIUM) = Inr 2000
   \<and> \<lfloor>of_int (1000 + 0) + of_int \<lfloor>fl (1000 * min (fl (of_int 0 / of_int 2)) 1)\<rfloor>
          * multiplier (scoring_policy MEDIUM)\<rfloor> = 1000"
proof -
  have "start_new_run [''zero'' \<mapsto> zero_level MEDIUM] ''2026-01-01T00:00:00+00:00''
          ''2026-01-01T00:00:01+00:00'' ''2026-01-01T00:00:02+00:00'' ''zero'' = Inr zero_start"
    by (simp add: start_new_run_def require_level_def zero_level_def
          GameState_start_def visit_def autosave_def zero_start_def)
  then have "reachable [''zero'' \<mapsto> zero_level MEDIUM] zero_start" by (rule reachable.start)
  then have r: "reachable [''zero'' \<mapsto> zero_level MEDIUM] (zero_won MEDIUM)"
    unfolding zero_won_def by (intro reachable.step)
  have wf: "well_formed_inputs (zero_won MEDIUM) (zero_level MEDIUM)"
    by (simp add: well_formed_inputs_def zero_won_eq zero_level_def fcard_fempty)
  have e: "efficiency (zero_won MEDIUM) (zero_level MEDIUM) = Inr 1"
    by (simp add: efficiency_def optimal_moves_falsy_def zero_level_def)
  have ep: "efficiency_points (Some 0) 2 = 1000" by code_simp
  have s: "StandardScore_calculate (zero_won MEDIUM) (zero_level MEDIUM) = Inr 2000"
    by (subst StandardScore_eq [OF wf])
       (simp add: standard_points_def zero_won_eq zero_level_def progress_points_def fcard_fempty ep)
  have z: "fl 0 = 0" by (simp add: fl_def)
  show ?thesis using r e s by (simp add: zero_won_eq zero_level_def z)
qed

theorem zero_optimum_penalty_counterexample:
  "status (zero_won HARD) = COMPLETED
   \<and> optimal_moves (zero_level HARD) = Some 0
   \<and> 0 < move_count (zero_won HARD)
   \<and> MaxMovesScore_calculate (zero_won HARD) (zero_level HARD) = Inr 2250
   \<and> true_div (move_count (zero_won HARD) - 0) 0 = Inl ZeroDivisionError"
proof -
  have wf: "well_formed_inputs (zero_won HARD) (zero_level HARD)"
    by (simp add: well_formed_inputs_def zero_won_eq zero_level_def fcard_fempty)
  have ep: "efficiency_points (Some 0) 2 = 1000" by code_simp
  have s: "MaxMovesScore_calculate (zero_won HARD) (zero_level HARD) = Inr 2250"
    by (subst MaxMovesScore_eq [OF wf])
       (simp add: standard_points_def zero_won_eq zero_level_def progress_points_def fcard_fempty ep)
  show ?thesis using s by (simp add: zero_won_eq zero_level_def true_div_def)
qed

theorem hard_below_medium_counterexample:
  "score (corridor_state stones 14 COMPLETED) (with_difficulty (corridor_level EASY) MEDIUM) = Inr 2000
   \<and> score (corridor_state stones 14 COMPLETED) (with_difficulty (corridor_level EASY) HARD) = Inr 1063"
proof -
  have wf: "well_formed_inputs (corridor_state stones 14 COMPLETED) (with_difficulty (corridor_level EASY) d)" for d
    by (simp add: well_formed_inputs_def corridor_state_def corridor_level_def with_difficulty_def fcard_stones)
  have 1: "StandardScore_calculate (corridor_state stones 14 COMPLETED) (with_difficulty (corridor_level EASY) MEDIUM) = Inr 2000"
    by (subst StandardScore_eq [OF wf])
       (simp add: standard_points_def corridor_state_def corridor_level_def with_difficulty_def fcard_stones pp66 ep714)
  have 2: "MaxMovesScore_calculate (corridor_state stones 14 COMPLETED) (with_difficulty (corridor_level EASY) HARD) = Inr 1063"
    by (subst MaxMovesScore_eq [OF wf])
       (simp add: standard_points_def corridor_state_def corridor_level_def with_difficulty_def fcard_stones pp66 ep714 pen)
  show ?thesis using 1 2 by (simp add: score_def with_difficulty_def corridor_level_def)
qed


lemma corridor_well_formed:
  "well_formed_inputs (corridor_state stones n st) (corridor_level d) = (n < 2 ^ 63)"
  by (simp add: well_formed_inputs_def corridor_state_def corridor_level_def fcard_stones)

lemma corridor_standard_7: "StandardScore_calculate (corridor_state stones 7 COMPLETED) (corridor_level d)
    = Inr \<lfloor>1500 + 1000 * multiplier (scoring_policy d)\<rfloor>"
  by (subst StandardScore_eq)
     (simp_all add: corridor_well_formed,
      simp add: standard_points_def corridor_state_def corridor_level_def fcard_stones pp66 ep77)

lemma corridor_standard_14: "StandardScore_calculate (corridor_state stones 14 COMPLETED) (corridor_level d)
    = Inr \<lfloor>1500 + 500 * multiplier (scoring_policy d)\<rfloor>"
  by (subst StandardScore_eq)
     (simp_all add: corridor_well_formed,
      simp add: standard_points_def corridor_state_def corridor_level_def fcard_stones pp66 ep714)

theorem completed_score_witness:
  "status (corridor_state stones 7 COMPLETED) = COMPLETED
   \<and> well_formed_inputs (corridor_state stones 7 COMPLETED) (corridor_level EASY)
   \<and> StandardScore_calculate (corridor_state stones 7 COMPLETED) (corridor_level EASY) = Inr 2250"
proof -
  have h1: "status (corridor_state stones 7 COMPLETED) = COMPLETED" by (simp add: corridor_state_def)
  have h2: "well_formed_inputs (corridor_state stones 7 COMPLETED) (corridor_level EASY)"
    by (simp add: corridor_well_formed)
  have g: "StandardScore_calculate (corridor_state stones 7 COMPLETED) (corridor_level EASY) = Inr 2250"
    by (simp add: corridor_standard_7)
  show ?thesis using h1 h2 g completed_score [OF h1 h2] by simp
qed

theorem max_moves_score_witness:
  "well_formed_inputs (corridor_state stones 14 COMPLETED) (corridor_level HARD)
   \<and> StandardScore_calculate (corridor_state stones 14 COMPLETED) (corridor_level HARD) = Inr 2125
   \<and> MaxMovesScore_calculate (corridor_state stones 14 COMPLETED) (corridor_level HARD) = Inr 1063"
proof -
  have h: "well_formed_inputs (corridor_state stones 14 COMPLETED) (corridor_level HARD)"
    by (simp add: corridor_well_formed)
  have b: "StandardScore_calculate (corridor_state stones 14 COMPLETED) (corridor_level HARD) = Inr 2125"
    by (simp add: corridor_standard_14)
  have p: "\<lfloor>fl (fl (of_int 2125 * min (fl (of_int (14 - 7) / of_int 7)) 1) * (1 / 2))\<rfloor> = (1062 :: int)"
    using pen by (simp only: penalty_points_def)
  from max_moves_score [OF h] obtain base where
    base: "StandardScore_calculate (corridor_state stones 14 COMPLETED) (corridor_level HARD) = Inr base"
      "MaxMovesScore_calculate (corridor_state stones 14 COMPLETED) (corridor_level HARD) =
         Inr (case optimal_moves (corridor_level HARD) of
                None \<Rightarrow> base
              | Some n \<Rightarrow>
                  if status (corridor_state stones 14 COMPLETED) = COMPLETED \<and> n \<noteq> 0
                     \<and> n < move_count (corridor_state stones 14 COMPLETED)
                  then max (base - \<lfloor>fl (fl (of_int base
                         * min (fl (of_int (move_count (corridor_state stones 14 COMPLETED) - n) / of_int n)) 1)
                         * (1 / 2))\<rfloor>) 0
                  else base)"
    by blast
  have "base = 2125" using base(1) b by simp
  then have "MaxMovesScore_calculate (corridor_state stones 14 COMPLETED) (corridor_level HARD) = Inr 1063"
    unfolding base(2) using p by (simp add: corridor_level_def corridor_state_def)
  then show ?thesis using h b by simp
qed

theorem zero_optimum_counts_as_undefined_witness:
  "status (zero_won MEDIUM) = COMPLETED
   \<and> optimal_moves (zero_level MEDIUM) = Some 0
   \<and> efficiency (zero_won MEDIUM) (zero_level MEDIUM) = Inr 1
   \<and> StandardScore_calculate (zero_won MEDIUM) (zero_level MEDIUM) = Inr 2000
   \<and> MaxMovesScore_calculate (zero_won MEDIUM) (zero_level MEDIUM) = Inr 2000"
proof -
  have h1: "status (zero_won MEDIUM) = COMPLETED" by (simp add: zero_won_eq)
  have h2: "optimal_moves (zero_level MEDIUM) = Some 0" by (simp add: zero_level_def)
  have h3: "fcard (collected_items (zero_won MEDIUM)) < 2 ^ 32" by (simp add: zero_won_eq fcard_fempty)
  have r: "fcard (required_items (rules (zero_level MEDIUM))) = 0"
    by (simp add: zero_level_def)
  have d: "multiplier (scoring_policy (difficulty (zero_level MEDIUM))) = 1"
    by (simp add: zero_level_def)
  note z = zero_optimum_counts_as_undefined [OF h1 h2 h3, unfolded Let_def]
  have 1: "efficiency (zero_won MEDIUM) (zero_level MEDIUM) = Inr 1"
    using z by (rule conjunct1)
  have 2: "StandardScore_calculate (zero_won MEDIUM) (zero_level MEDIUM) = Inr 2000"
    using z [THEN conjunct2, THEN conjunct2, THEN conjunct1] by (simp add: r d)
  have 3: "MaxMovesScore_calculate (zero_won MEDIUM) (zero_level MEDIUM)
           = StandardScore_calculate (zero_won MEDIUM) (zero_level MEDIUM)"
    using z [THEN conjunct2, THEN conjunct2, THEN conjunct2] .
  show ?thesis using h1 h2 1 2 3 by simp
qed

theorem score_monotone_in_difficulty_witness:
  "well_formed_inputs (corridor_state stones 7 COMPLETED) (corridor_level EASY)
   \<and> score (corridor_state stones 7 COMPLETED) (with_difficulty (corridor_level EASY) EASY) = Inr 2250
   \<and> score (corridor_state stones 7 COMPLETED) (with_difficulty (corridor_level EASY) MEDIUM) = Inr 2500
   \<and> score (corridor_state stones 7 COMPLETED) (with_difficulty (corridor_level EASY) HARD) = Inr 2750"
proof -
  have h: "well_formed_inputs (corridor_state stones 7 COMPLETED) (corridor_level EASY)"
    by (simp add: corridor_well_formed)
  have w: "with_difficulty (corridor_level EASY) d = corridor_level d" for d
    by (simp add: with_difficulty_def corridor_level_def)
  have sc: "scoring (corridor_level d) = scoring_strategy d" for d
    by (simp add: corridor_level_def)
  have e: "score (corridor_state stones 7 COMPLETED) (corridor_level EASY) = Inr 2250"
    and m: "score (corridor_state stones 7 COMPLETED) (corridor_level MEDIUM) = Inr 2500"
    by (simp_all add: score_def sc corridor_standard_7)
  have b: "StandardScore_calculate (corridor_state stones 7 COMPLETED) (corridor_level HARD) = Inr 2750"
    by (simp add: corridor_standard_7)
  from score_monotone_in_difficulty [OF h] obtain h' where
    "score (corridor_state stones 7 COMPLETED) (with_difficulty (corridor_level EASY) HARD) = Inr h'"
    "h' = 2750"
    unfolding w using b by (auto simp: corridor_level_def corridor_state_def)
  then show ?thesis using h e m by (simp add: w)
qed

end
